theory Spec2Isabelle
  imports Complex_Main "HOL-Library.Word"
begin

section \<open>Machine types, std::string and the fatal conditions\<close>

text \<open>
  The program is \<^verbatim>\<open>step-3/step-3.cc\<close>: the class \<^verbatim>\<open>CDRProblem<dim>\<close> with its constructor,
  \<^verbatim>\<open>setup_geometry\<close>, \<^verbatim>\<open>setup_matrices\<close>, \<^verbatim>\<open>time_iterate\<close> and \<^verbatim>\<open>run\<close>.
  \<^verbatim>\<open>unsigned int\<close> is a 32-bit word and \<^verbatim>\<open>std::string::size_type\<close> a 64-bit word.

  \<^verbatim>\<open>double\<close> is the type variable \<open>'d\<close>: any type with a zero and the operations \<open>+\<close>, \<open>-\<close>,
  \<open>*\<close> and \<open>/\<close>. No law is assumed of them, so a sum here is whatever the machine's addition
  returns: what is proved of the program holds for IEEE binary64 with its rounding, its
  infinities and its NaN, and for the real numbers as well. The two conversions to
  \<^verbatim>\<open>double\<close> that the program needs (from \<^verbatim>\<open>unsigned int\<close> and from a decimal literal) are
  taken from the environment below.

  Every way the program can stop early (a failed assertion, an exception nobody
  catches, a division by zero of integers) is a value of \<open>error\<close>.
\<close>

type_synonym unsigned_int = "32 word"
type_synonym size_t = "64 word"

definition invalid_unsigned_int :: unsigned_int where
  "invalid_unsigned_int = - 1"

definition npos :: size_t where
  "npos = - 1"

datatype error =
    ExcNotImplemented
  | StdOutOfRange
  | ExcWrongNumberOfVariables
  | ExcInvalidExpressionSize nat nat
  | ExcParseError
  | NoConvergence unsigned_int
  | ExcInvalidNumber unsigned_int
  | DivisionByZero unsigned_int

text \<open>
  \<^verbatim>\<open>s.find_first_of(chars)\<close>: the position of the first character of \<open>s\<close> that occurs in
  \<open>chars\<close>, \<open>npos\<close> when there is none.
\<close>

definition find_first_of :: "string \<Rightarrow> string \<Rightarrow> size_t" where
  "find_first_of s chars =
     (let k = length (takeWhile (\<lambda>c. c \<notin> set chars) s)
      in if k < length s then of_nat k else npos)"

text \<open>
  \<^verbatim>\<open>s.substr(pos, n)\<close>: throws \<^verbatim>\<open>std::out_of_range\<close> when \<open>pos > s.size()\<close>, otherwise the
  characters from \<open>pos\<close> on, at most \<open>n\<close> of them. The one-argument call has \<open>n = npos\<close>.
\<close>

definition substr :: "string \<Rightarrow> size_t \<Rightarrow> size_t \<Rightarrow> error + string" where
  "substr s pos n =
     (if length s < unat pos then Inl StdOutOfRange
      else Inr (take (unat n) (drop (unat pos) s)))"

section \<open>The run configuration\<close>

text \<open>
  Modelled from the spec: \<^verbatim>\<open>CDR::Parameters\<close> is declared in \<^verbatim>\<open>../common/parameters.h\<close>,
  which is not among the sources. The fields are the ones the spec's configuration
  record names and \<^verbatim>\<open>step-3.cc\<close> reads, in the order of the initialiser in \<^verbatim>\<open>main\<close>.
\<close>

record 'd Parameters =
  inner_radius :: 'd
  outer_radius :: 'd
  diffusion_coefficient :: 'd
  convection_field :: string
  reaction_coefficient :: 'd
  forcing :: string
  time_dependent_forcing :: bool
  refinement_level :: unsigned_int
  fe_order :: unsigned_int
  start_time :: 'd
  stop_time :: 'd
  n_time_steps :: unsigned_int
  save_interval :: unsigned_int
  patch_level :: unsigned_int

section \<open>Library objects the program holds\<close>

type_synonym 'd Point = "'d list"
type_synonym IndexSet = "nat set"
type_synonym 'd Vector = "nat \<rightharpoonup> 'd"
type_synonym manifold_id_t = "32 word"

text \<open>
  \<^verbatim>\<open>FunctionParser<dim>\<close>: the number of components given to its constructor, what
  \<^verbatim>\<open>initialize\<close> stored, and the time of its \<^verbatim>\<open>FunctionTime\<close> base (initially 0).
  \<^verbatim>\<open>advance_time(delta_t)\<close> is \<^verbatim>\<open>set_time(time + delta_t)\<close>, one addition of doubles.
\<close>

record 'd FunctionParser =
  n_components :: unsigned_int
  var_names :: "string list"
  expressions :: "string list"
  constants :: "(string \<times> 'd) list"
  fp_time :: 'd
  initialized :: bool

definition FunctionParser_new :: "unsigned_int \<Rightarrow> 'd::zero FunctionParser" where
  "FunctionParser_new n =
     \<lparr>n_components = n, var_names = [], expressions = [], constants = [],
      fp_time = 0, initialized = False\<rparr>"

definition set_time :: "'d \<Rightarrow> 'd FunctionParser \<Rightarrow> 'd FunctionParser" where
  "set_time t f = f\<lparr>fp_time := t\<rparr>"

definition advance_time :: "'d::plus \<Rightarrow> 'd FunctionParser \<Rightarrow> 'd FunctionParser" where
  "advance_time delta_t f = set_time (fp_time f + delta_t) f"

text \<open>
  The mesh. Faces are shared between neighbouring cells, so the triangulation owns one
  table of faces and a cell holds the indices of its faces in it. A fresh face or cell
  carries \<^verbatim>\<open>numbers::flat_manifold_id\<close> (the invalid id).
\<close>

definition flat_manifold_id :: manifold_id_t where
  "flat_manifold_id = - 1"

record Face =
  at_boundary :: bool
  face_manifold_id :: manifold_id_t

record Cell =
  cell_active :: bool
  cell_manifold_id :: manifold_id_t
  cell_faces :: "nat list"

record Mesh =
  mesh_cells :: "Cell list"
  mesh_faces :: "Face list"

datatype 'd Manifold = SphericalManifold "'d Point"

record 'd Triangulation =
  tria_mesh :: Mesh
  tria_manifolds :: "(manifold_id_t \<times> 'd Manifold) list"
  locally_owned_subdomain :: unsigned_int

text \<open>
  \<^verbatim>\<open>parallel::distributed::Triangulation<dim>(mpi_communicator, smoothing)\<close>: empty, and the
  subdomain this process owns is its rank in the communicator.
\<close>

definition Triangulation_new :: "unsigned_int \<Rightarrow> 'd Triangulation" where
  "Triangulation_new rank =
     \<lparr>tria_mesh = \<lparr>mesh_cells = [], mesh_faces = []\<rparr>, tria_manifolds = [],
      locally_owned_subdomain = rank\<rparr>"

definition set_manifold ::
  "manifold_id_t \<Rightarrow> 'd Manifold \<Rightarrow> 'd Triangulation \<Rightarrow> 'd Triangulation" where
  "set_manifold m description t =
     t\<lparr>tria_manifolds := (m, description) # filter (\<lambda>e. fst e \<noteq> m) (tria_manifolds t)\<rparr>"

definition n_active_cells :: "'d Triangulation \<Rightarrow> nat" where
  "n_active_cells t = length (filter cell_active (mesh_cells (tria_mesh t)))"

text \<open>
  \<^verbatim>\<open>cell->set_all_manifold_ids(m)\<close>: sets the manifold id of the cell and of every object
  that bounds it, that is of each of its faces.
\<close>

definition set_face_manifold_id :: "manifold_id_t \<Rightarrow> nat \<Rightarrow> Face list \<Rightarrow> Face list" where
  "set_face_manifold_id m f fs = fs[f := (fs ! f)\<lparr>face_manifold_id := m\<rparr>]"

definition set_all_manifold_ids :: "nat \<Rightarrow> manifold_id_t \<Rightarrow> Mesh \<Rightarrow> Mesh" where
  "set_all_manifold_ids c m t =
     t\<lparr>mesh_cells := (mesh_cells t)[c := (mesh_cells t ! c)\<lparr>cell_manifold_id := m\<rparr>],
       mesh_faces := fold (set_face_manifold_id m) (cell_faces (mesh_cells t ! c)) (mesh_faces t)\<rparr>"

text \<open>
  What \<^verbatim>\<open>DoFHandler<dim>\<close> answers once \<^verbatim>\<open>initialize\<close> has enumerated the unknowns;
  \<open>dh_locally_relevant_dofs\<close> is the index set \<^verbatim>\<open>DoFTools::extract_locally_relevant_dofs\<close>
  reads off it.
\<close>

record DoFHandler =
  n_dofs :: nat
  dh_locally_owned_dofs :: IndexSet
  dh_locally_relevant_dofs :: IndexSet
  n_locally_owned_dofs_per_processor :: "nat list"

definition DoFHandler_new :: DoFHandler where
  "DoFHandler_new =
     \<lparr>n_dofs = 0, dh_locally_owned_dofs = {}, dh_locally_relevant_dofs = {},
      n_locally_owned_dofs_per_processor = []\<rparr>"

text \<open>
  \<^verbatim>\<open>TrilinosWrappers::MPI::Vector\<close>: the entries this process stores, by global index.
  \<^verbatim>\<open>reinit(index_set, communicator)\<close> gives the vector over the index set with every entry
  zero; \<^verbatim>\<open>v = 0.0\<close> keeps the layout and sets every entry to zero.
\<close>

definition Vector_reinit :: "IndexSet \<Rightarrow> 'd::zero Vector" where
  "Vector_reinit is = (\<lambda>i. if i \<in> is then Some 0 else None)"

definition Vector_set_zero :: "'d::zero Vector \<Rightarrow> 'd Vector" where
  "Vector_set_zero v = (\<lambda>i. if v i = None then None else Some 0)"

section \<open>The collaborators outside the program\<close>

text \<open>
  What the program calls and does not define: the build mode, the process group, the
  conversions to \<^verbatim>\<open>double\<close>, the expression parser, the mesh generator and refinement, the
  enumeration of unknowns, the constraints, the sparse linear algebra with its collective
  operations, and the two assembly routines of \<^verbatim>\<open>../common\<close>. They are parameters of the
  model. \<open>'c\<close> is \<^verbatim>\<open>ConstraintMatrix\<close>, \<open>'m\<close> is \<^verbatim>\<open>TrilinosWrappers::SparseMatrix\<close> and \<open>'p\<close> is
  \<^verbatim>\<open>TrilinosWrappers::PreconditionAMG\<close>.

  \<open>assertions_enabled\<close>: the library's \<^verbatim>\<open>Assert\<close> is compiled in debug builds only.
  \<open>double_of_unsigned\<close> is the conversion of an \<^verbatim>\<open>unsigned int\<close> operand to \<^verbatim>\<open>double\<close>, and
  \<open>double_literal x\<close> is the \<^verbatim>\<open>double\<close> that a literal written as the number \<open>x\<close> denotes.
  \<open>gmres_solve\<close> returns \<open>None\<close> when the solver gives up (it throws
  \<^verbatim>\<open>SolverControl::NoConvergence\<close>), otherwise the solution.
  \<open>int_to_string i digits\<close> is \<^verbatim>\<open>Utilities::int_to_string\<close>: the decimal digits of \<open>i\<close>,
  filled with leading zeros up to \<open>digits\<close> characters, no filling when \<open>digits\<close> is the
  default \<open>invalid_unsigned_int\<close>; \<open>None\<close> when the library refuses the number.
\<close>

record ('c, 'm, 'p, 'd) env =
  assertions_enabled :: bool
  mpi_n_processes :: unsigned_int
  mpi_this_process :: unsigned_int
  split_string_list :: "string \<Rightarrow> char \<Rightarrow> string list"
  int_to_string :: "unsigned_int \<Rightarrow> unsigned_int \<Rightarrow> string option"
  muparser_accepts :: "string list \<Rightarrow> string list \<Rightarrow> string \<Rightarrow> bool"
  hyper_shell :: "'d Point \<Rightarrow> 'd \<Rightarrow> 'd \<Rightarrow> Mesh"
  refine_global :: "unsigned_int \<Rightarrow> Mesh \<Rightarrow> Mesh"
  dof_handler_initialize :: "'d Triangulation \<Rightarrow> unsigned_int \<Rightarrow> DoFHandler"
  ConstraintMatrix_new :: 'c
  constraints_reinit :: "IndexSet \<Rightarrow> 'c"
  make_hanging_node_constraints :: "DoFHandler \<Rightarrow> 'c \<Rightarrow> 'c"
  interpolate_boundary_values :: "DoFHandler \<Rightarrow> unsigned_int \<Rightarrow> 'c \<Rightarrow> 'c"
  constraints_close :: "'c \<Rightarrow> 'c"
  constraints_distribute :: "'c \<Rightarrow> 'd Vector \<Rightarrow> 'd Vector"
  make_sparsity_pattern :: "DoFHandler \<Rightarrow> IndexSet \<Rightarrow> 'c \<Rightarrow> (nat \<times> nat) set"
  distribute_sparsity_pattern ::
    "(nat \<times> nat) set \<Rightarrow> nat list \<Rightarrow> IndexSet \<Rightarrow> (nat \<times> nat) set"
  SparseMatrix_new :: 'm
  matrix_reinit :: "IndexSet \<Rightarrow> (nat \<times> nat) set \<Rightarrow> 'm"
  matrix_compress :: "'m \<Rightarrow> 'm"
  create_system_matrix ::
    "DoFHandler \<Rightarrow> unsigned_int \<Rightarrow> 'd FunctionParser \<Rightarrow> 'd Parameters \<Rightarrow> 'd \<Rightarrow> 'c \<Rightarrow> 'm \<Rightarrow> 'm"
  create_system_rhs ::
    "DoFHandler \<Rightarrow> unsigned_int \<Rightarrow> 'd FunctionParser \<Rightarrow> 'd FunctionParser \<Rightarrow> 'd Parameters
       \<Rightarrow> 'd Vector \<Rightarrow> 'c \<Rightarrow> 'd Vector \<Rightarrow> 'd Vector"
  vector_compress :: "'d Vector \<Rightarrow> 'd Vector"
  l2_norm :: "'d Vector \<Rightarrow> 'd"
  import_ghosts :: "'d Vector \<Rightarrow> 'd Vector \<Rightarrow> 'd Vector"
  PreconditionAMG_new :: 'p
  amg_initialize :: "'m \<Rightarrow> 'p"
  gmres_solve :: "nat \<Rightarrow> 'd \<Rightarrow> 'm \<Rightarrow> 'd Vector \<Rightarrow> 'd Vector \<Rightarrow> 'p \<Rightarrow> 'd Vector option"
  double_of_unsigned :: "unsigned_int \<Rightarrow> 'd"
  double_literal :: "real \<Rightarrow> 'd"

text \<open>
  The journal of a run: each call of an assembly routine or of the solver, with what it
  was handed and what it returned, and each file written, in the order they happen. The
  entries of the time loop carry the index \<^verbatim>\<open>time_step_n\<close> of the iteration that made
  them. The arguments that are members the loop never assigns (\<^verbatim>\<open>dof_handler\<close>, \<^verbatim>\<open>quad\<close>,
  \<^verbatim>\<open>convection_function\<close>, \<^verbatim>\<open>parameters\<close>, \<^verbatim>\<open>constraints\<close>, \<^verbatim>\<open>preconditioner\<close>) are not
  repeated in the entries.
  \<^item> \<open>CreateSystemMatrix dt A0 A\<close>: \<^verbatim>\<open>CDR::create_system_matrix\<close> was called with step size
    \<open>dt\<close> on the matrix \<open>A0\<close> and left \<open>A\<close> in it;
  \<^item> \<open>CreateSystemRhs n t f u b0 b\<close>: \<^verbatim>\<open>CDR::create_system_rhs\<close> was called in iteration \<open>n\<close>,
    when \<^verbatim>\<open>current_time\<close> was \<open>t\<close>, with the forcing function \<open>f\<close> and the previous
    solution \<open>u\<close> on the vector \<open>b0\<close>, and left \<open>b\<close> in it;
  \<^item> \<open>SolverSolve n k tol A x0 b x\<close>: \<^verbatim>\<open>solver.solve\<close> was called in iteration \<open>n\<close> under a
    \<^verbatim>\<open>SolverControl(k, tol)\<close> with matrix \<open>A\<close>, right-hand side \<open>b\<close> and the solution vector
    holding \<open>x0\<close>, and returned with \<open>x\<close> in it;
  \<^item> \<open>WriteVtu n name u sub\<close>: the file \<open>name\<close> was opened and \<^verbatim>\<open>write_vtu\<close> wrote the
    solution \<open>u\<close> and the subdomain vector to it, each entry of which is the number \<open>sub\<close>
    says;
  \<^item> \<open>WritePvtu n name names\<close>: the file \<open>name\<close> was opened and \<^verbatim>\<open>write_pvtu_record\<close>
    wrote the record of the files \<open>names\<close> to it.
\<close>

datatype ('m, 'd) call =
    CreateSystemMatrix 'd 'm 'm
  | CreateSystemRhs unsigned_int 'd "'d FunctionParser" "'d Vector" "'d Vector" "'d Vector"
  | SolverSolve unsigned_int nat 'd 'm "'d Vector" "'d Vector" "'d Vector"
  | WriteVtu unsigned_int string "'d Vector" "unsigned_int list"
  | WritePvtu unsigned_int string "string list"

section \<open>The class CDRProblem\<close>

definition manifold_id :: manifold_id_t where
  "manifold_id = 0"

record ('c, 'm, 'p, 'd) CDRProblem =
  space_dimension :: int
  parameters :: "'d Parameters"
  time_step :: 'd
  n_mpi_processes :: unsigned_int
  this_mpi_process :: unsigned_int
  fe :: unsigned_int
  quad :: unsigned_int
  boundary_description :: "'d Manifold"
  triangulation :: "'d Triangulation"
  dof_handler :: DoFHandler
  locally_owned_dofs :: IndexSet
  locally_relevant_dofs :: IndexSet
  parser_constants :: "(string \<times> 'd) list"
  convection_function :: "'d FunctionParser"
  forcing_function :: "'d FunctionParser"
  constraints :: 'c
  locally_relevant_solution :: "'d Vector"
  system_rhs :: "'d Vector"
  system_matrix :: 'm
  preconditioner :: 'p
  journal :: "('m, 'd) call list"

subsection \<open>The constructor\<close>

text \<open>
  \<^verbatim>\<open>FunctionParser<dim>::initialize(variables, expressions, constants, time_dependent)\<close>.
  \<open>names\<close> are the variable names the string \<open>variables\<close> lists (x and y for the
  literal "x,y"). The library throws when their number is not \<open>dim\<close> (\<open>dim + 1\<close> for a
  time-dependent function), when the number of expressions is not the number of
  components, and when the parser rejects an expression. The overload that takes one
  string splits it at semicolons first.
\<close>

definition FunctionParser_initialize ::
  "('c, 'm, 'p, 'd) env \<Rightarrow> int \<Rightarrow> string list \<Rightarrow> string list \<Rightarrow> (string \<times> 'd) list \<Rightarrow> bool
     \<Rightarrow> 'd FunctionParser \<Rightarrow> error + 'd FunctionParser" where
  "FunctionParser_initialize env dimension names exprs consts time_dependent f =
     (if (if time_dependent then dimension + 1 else dimension) \<noteq> int (length names)
        then Inl ExcWrongNumberOfVariables
      else if unat (n_components f) \<noteq> length exprs
        then Inl (ExcInvalidExpressionSize (unat (n_components f)) (length exprs))
      else if \<not> list_all (muparser_accepts env names (map fst consts)) exprs
        then Inl ExcParseError
      else Inr (f\<lparr>var_names := names, expressions := exprs, constants := consts,
                  initialized := True\<rparr>))"

definition FunctionParser_initialize_single ::
  "('c, 'm, 'p, 'd) env \<Rightarrow> int \<Rightarrow> string list \<Rightarrow> string \<Rightarrow> (string \<times> 'd) list \<Rightarrow> bool
     \<Rightarrow> 'd FunctionParser \<Rightarrow> error + 'd FunctionParser" where
  "FunctionParser_initialize_single env dimension names expr consts time_dependent f =
     FunctionParser_initialize env dimension names (split_string_list env expr (CHR '';''))
       consts time_dependent f"

text \<open>
  Lines 109 to 115: the two clauses handed to the parser are
  \<^verbatim>\<open>substr(0, find_first_of(","))\<close> and \<^verbatim>\<open>substr(find_first_of(",") + 1)\<close>; the addition
  is in \<^verbatim>\<open>size_t\<close> and wraps.
\<close>

definition convection_field_clauses :: "string \<Rightarrow> error + string list" where
  "convection_field_clauses field =
     (case substr field 0 (find_first_of field '','') of
        Inl e \<Rightarrow> Inl e
      | Inr first_clause \<Rightarrow>
          (case substr field (find_first_of field '','' + 1) npos of
             Inl e \<Rightarrow> Inl e
           | Inr second_clause \<Rightarrow> Inr [first_clause, second_clause]))"

text \<open>
  \<^verbatim>\<open>CDRProblem<dim>::CDRProblem(parameters)\<close>: the member initialisers, then the body.
  \<open>dimension\<close> is the template argument \<^verbatim>\<open>dim\<close>, kept in \<open>space_dimension\<close>. The
  quadrature order \<^verbatim>\<open>3*(2 + fe_order)/2\<close> is computed in \<^verbatim>\<open>unsigned int\<close>. The step size
  \<^verbatim>\<open>(stop_time - start_time)/n_time_steps\<close> is a subtraction and a division of doubles,
  \<^verbatim>\<open>n_time_steps\<close> being converted first; with \<open>n_time_steps = 0\<close> it is whatever the
  division by zero of the arithmetic gives, and no iteration runs.
  A failed \<^verbatim>\<open>Assert\<close> and an exception of \<^verbatim>\<open>initialize\<close> both end the program.
\<close>

definition CDRProblem_ctor ::
  "('c, 'm, 'p, 'd::{zero,minus,inverse}) env \<Rightarrow> int \<Rightarrow> 'd Parameters
     \<Rightarrow> error + ('c, 'm, 'p, 'd) CDRProblem" where
  "CDRProblem_ctor env dimension params =
     (if assertions_enabled env \<and> dimension \<noteq> 2 then Inl ExcNotImplemented
      else
        let consts = [(''pi'', double_literal env pi)]
        in case convection_field_clauses (convection_field params) of
             Inl e \<Rightarrow> Inl e
           | Inr clauses \<Rightarrow>
        (case FunctionParser_initialize env dimension [''x'', ''y''] clauses consts False
                (FunctionParser_new (word_of_int dimension)) of
           Inl e \<Rightarrow> Inl e
         | Inr convection \<Rightarrow>
        (case FunctionParser_initialize_single env dimension [''x'', ''y'', ''t''] (forcing params) consts True
                (FunctionParser_new 1) of
           Inl e \<Rightarrow> Inl e
         | Inr forcing_f \<Rightarrow>
             Inr \<lparr>space_dimension = dimension,
                  parameters = params,
                  time_step = (stop_time params - start_time params)
                                / double_of_unsigned env (n_time_steps params),
                  n_mpi_processes = mpi_n_processes env,
                  this_mpi_process = mpi_this_process env,
                  fe = fe_order params,
                  quad = (3 * (2 + fe_order params)) div 2,
                  boundary_description = SphericalManifold (replicate (nat dimension) 0),
                  triangulation = Triangulation_new (mpi_this_process env),
                  dof_handler = DoFHandler_new,
                  locally_owned_dofs = {},
                  locally_relevant_dofs = {},
                  parser_constants = consts,
                  convection_function = convection,
                  forcing_function = set_time (start_time params) forcing_f,
                  constraints = ConstraintMatrix_new env,
                  locally_relevant_solution = Map.empty,
                  system_rhs = Map.empty,
                  system_matrix = SparseMatrix_new env,
                  preconditioner = PreconditionAMG_new env,
                  journal = []\<rparr>)))"

subsection \<open>setup_geometry\<close>

text \<open>
  Lines 134 to 137: the loop over \<^verbatim>\<open>triangulation.active_cell_iterators()\<close>, calling
  \<^verbatim>\<open>cell->set_all_manifold_ids(0)\<close> on each active cell.
\<close>

definition tag_active_cells :: "Mesh \<Rightarrow> Mesh" where
  "tag_active_cells t =
     fold (\<lambda>c t'. if cell_active (mesh_cells t' ! c) then set_all_manifold_ids c 0 t' else t')
       [0..<length (mesh_cells t)] t"

definition setup_geometry ::
  "('c, 'm, 'p, 'd::zero) env \<Rightarrow> ('c, 'm, 'p, 'd) CDRProblem \<Rightarrow> ('c, 'm, 'p, 'd) CDRProblem" where
  "setup_geometry env p =
     (let center = replicate (nat (space_dimension p)) 0;
          t1 = (triangulation p)\<lparr>tria_mesh :=
                 hyper_shell env center (inner_radius (parameters p))
                   (outer_radius (parameters p))\<rparr>;
          t2 = set_manifold manifold_id (boundary_description p) t1;
          t3 = t2\<lparr>tria_mesh := tag_active_cells (tria_mesh t2)\<rparr>;
          t4 = t3\<lparr>tria_mesh :=
                 refine_global env (refinement_level (parameters p)) (tria_mesh t3)\<rparr>;
          dh = dof_handler_initialize env t4 (fe p)
      in p\<lparr>triangulation := t4,
            dof_handler := dh,
            locally_owned_dofs := dh_locally_owned_dofs dh,
            locally_relevant_dofs := dh_locally_relevant_dofs dh,
            locally_relevant_solution := Vector_reinit (dh_locally_relevant_dofs dh)\<rparr>)"

subsection \<open>setup_matrices\<close>

text \<open>
  Lines 148 to 171. \<^verbatim>\<open>create_system_matrix\<close> fills the matrix it is handed, which is the
  member \<^verbatim>\<open>system_matrix\<close> just after \<^verbatim>\<open>reinit\<close>; the journal entry holds that matrix and the
  one the call left.
\<close>

definition setup_matrices ::
  "('c, 'm, 'p, 'd::zero) env \<Rightarrow> ('c, 'm, 'p, 'd) CDRProblem \<Rightarrow> ('c, 'm, 'p, 'd) CDRProblem" where
  "setup_matrices env p =
     (let c0 = constraints_reinit env (locally_relevant_dofs p);
          c1 = make_hanging_node_constraints env (dof_handler p) c0;
          c2 = interpolate_boundary_values env (dof_handler p) 0 c1;
          c3 = constraints_close env c2;
          dsp0 = make_sparsity_pattern env (dof_handler p) (locally_relevant_dofs p) c3;
          dsp = distribute_sparsity_pattern env dsp0
                  (n_locally_owned_dofs_per_processor (dof_handler p)) (locally_relevant_dofs p);
          rhs = Vector_reinit (locally_owned_dofs p);
          m0 = matrix_reinit env (locally_owned_dofs p) dsp;
          m1 = create_system_matrix env (dof_handler p) (quad p) (convection_function p)
                 (parameters p) (time_step p) c3 m0;
          m2 = matrix_compress env m1
      in p\<lparr>constraints := c3,
            system_rhs := rhs,
            system_matrix := m2,
            preconditioner := amg_initialize env m2,
            journal := journal p @ [CreateSystemMatrix (time_step p) m0 m1]\<rparr>)"

subsection \<open>time_iterate\<close>

text \<open>
  Lines 204 to 232, the body of the \<^verbatim>\<open>if\<close> that saves a step. \<open>solution_filename\<close> is
  the expression \<^verbatim>\<open>"solution-" + int_to_string(time_step_n) + "." + int_to_string(rank, 4)\<close>
  of lines 217 and 227, \<open>None\<close> when the library refuses a number. The per-process file
  is \<^verbatim>\<open>filename + ".vtu"\<close>; on process 0 the loop over \<^verbatim>\<open>i < n_mpi_processes\<close> collects
  the names for the record file \<^verbatim>\<open>"solution-" + int_to_string(time_step_n) + ".pvtu"\<close>.
  Every entry of the subdomain vector is \<^verbatim>\<open>triangulation.locally_owned_subdomain()\<close>.
\<close>

definition solution_filename ::
  "('c, 'm, 'p, 'd) env \<Rightarrow> unsigned_int \<Rightarrow> unsigned_int \<Rightarrow> string option" where
  "solution_filename env time_step_n rank =
     (case int_to_string env time_step_n invalid_unsigned_int of
        None \<Rightarrow> None
      | Some step_string \<Rightarrow>
          (case int_to_string env rank 4 of
             None \<Rightarrow> None
           | Some rank_string \<Rightarrow> Some (''solution-'' @ step_string @ ''.'' @ rank_string)))"

definition pvtu_filename :: "('c, 'm, 'p, 'd) env \<Rightarrow> unsigned_int \<Rightarrow> string option" where
  "pvtu_filename env time_step_n =
     (case int_to_string env time_step_n invalid_unsigned_int of
        None \<Rightarrow> None
      | Some step_string \<Rightarrow> Some (''solution-'' @ step_string @ ''.pvtu''))"

fun pvtu_filenames ::
  "('c, 'm, 'p, 'd) env \<Rightarrow> unsigned_int \<Rightarrow> unsigned_int list \<Rightarrow> string list option" where
  "pvtu_filenames env time_step_n [] = Some []"
| "pvtu_filenames env time_step_n (i # ranks) =
     (case solution_filename env time_step_n i of
        None \<Rightarrow> None
      | Some name \<Rightarrow>
          (case pvtu_filenames env time_step_n ranks of
             None \<Rightarrow> None
           | Some filenames \<Rightarrow> Some ((name @ ''.vtu'') # filenames)))"

definition write_output ::
  "('c, 'm, 'p, 'd) env \<Rightarrow> unsigned_int \<Rightarrow> ('c, 'm, 'p, 'd) CDRProblem
     \<Rightarrow> error + ('c, 'm, 'p, 'd) CDRProblem" where
  "write_output env time_step_n p =
     (let owner = locally_owned_subdomain (triangulation p);
          subdomain = replicate (n_active_cells (triangulation p)) owner
      in case solution_filename env time_step_n owner of
           None \<Rightarrow> Inl (ExcInvalidNumber time_step_n)
         | Some filename \<Rightarrow>
             let p1 = p\<lparr>journal := journal p @
                        [WriteVtu time_step_n (filename @ ''.vtu'')
                           (locally_relevant_solution p) subdomain]\<rparr>
             in if this_mpi_process p = 0
                then (case pvtu_filenames env time_step_n
                             (map word_of_nat [0..<unat (n_mpi_processes p)]) of
                        None \<Rightarrow> Inl (ExcInvalidNumber time_step_n)
                      | Some filenames \<Rightarrow>
                          (case pvtu_filename env time_step_n of
                             None \<Rightarrow> Inl (ExcInvalidNumber time_step_n)
                           | Some master \<Rightarrow>
                               Inr (p1\<lparr>journal := journal p1 @
                                       [WritePvtu time_step_n master filenames]\<rparr>)))
                else Inr p1)"

text \<open>
  The variables of the loop: the object itself and the two locals of \<^verbatim>\<open>time_iterate\<close>.
\<close>

record ('c, 'm, 'p, 'd) iteration =
  problem :: "('c, 'm, 'p, 'd) CDRProblem"
  completely_distributed_solution :: "'d Vector"
  current_time :: 'd

text \<open>
  Lines 185 to 233, one pass through the body of the loop, statement by statement:
  \<^verbatim>\<open>current_time += time_step\<close> and \<^verbatim>\<open>forcing_function.advance_time(time_step)\<close> (one
  addition of doubles each), \<^verbatim>\<open>system_rhs = 0.0\<close>, the call of \<^verbatim>\<open>CDR::create_system_rhs\<close>
  on \<^verbatim>\<open>system_rhs\<close>, \<^verbatim>\<open>compress\<close>, the \<^verbatim>\<open>SolverControl\<close> with \<^verbatim>\<open>dof_handler.n_dofs()\<close> and
  \<^verbatim>\<open>1e-6*system_rhs.l2_norm()\<close> (a product of doubles), \<^verbatim>\<open>solver.solve\<close>,
  \<^verbatim>\<open>constraints.distribute\<close>, the assignment to the ghosted vector, and the output.
  The journal takes the entry of a call from the very values the call was made with and
  returned. \<^verbatim>\<open>solver.solve\<close> throws when it does not converge, and
  \<^verbatim>\<open>time_step_n % save_interval\<close> with \<open>save_interval = 0\<close> is a division by zero; both end
  the run.
\<close>

definition time_step_body ::
  "('c, 'm, 'p, 'd::{zero,plus,times}) env \<Rightarrow> ('c, 'm, 'p, 'd) iteration \<Rightarrow> unsigned_int
     \<Rightarrow> error + ('c, 'm, 'p, 'd) iteration" where
  "time_step_body env s time_step_n =
     (let p = problem s;
          t = current_time s + time_step p;
          forcing_f = advance_time (time_step p) (forcing_function p);
          rhs0 = Vector_set_zero (system_rhs p);
          rhs1 = create_system_rhs env (dof_handler p) (quad p) (convection_function p)
                   forcing_f (parameters p) (locally_relevant_solution p) (constraints p) rhs0;
          rhs = vector_compress env rhs1;
          max_steps = n_dofs (dof_handler p);
          tolerance = double_literal env (1 / 10 ^ 6) * l2_norm env rhs;
          p1 = p\<lparr>forcing_function := forcing_f,
                 system_rhs := rhs,
                 journal := journal p @
                   [CreateSystemRhs time_step_n t forcing_f (locally_relevant_solution p)
                      rhs0 rhs1]\<rparr>
      in case gmres_solve env max_steps tolerance (system_matrix p)
                (completely_distributed_solution s) rhs (preconditioner p) of
           None \<Rightarrow> Inl (NoConvergence time_step_n)
         | Some x \<Rightarrow>
             let solution = constraints_distribute env (constraints p) x;
                 p2 = p1\<lparr>locally_relevant_solution :=
                           import_ghosts env (locally_relevant_solution p) solution,
                         journal := journal p1 @
                           [SolverSolve time_step_n max_steps tolerance (system_matrix p)
                              (completely_distributed_solution s) rhs x]\<rparr>
             in if save_interval (parameters p) = 0 then Inl (DivisionByZero time_step_n)
                else if time_step_n mod save_interval (parameters p) = 0
                then (case write_output env time_step_n p2 of
                        Inl e \<Rightarrow> Inl e
                      | Inr p3 \<Rightarrow>
                          Inr \<lparr>problem = p3, completely_distributed_solution = solution,
                               current_time = t\<rparr>)
                else Inr \<lparr>problem = p2, completely_distributed_solution = solution,
                          current_time = t\<rparr>)"

text \<open>
  Lines 181 to 234: \<^verbatim>\<open>for (unsigned int time_step_n = 0; time_step_n < n_time_steps; ++time_step_n)\<close>.
\<close>

function time_loop ::
  "('c, 'm, 'p, 'd::{zero,plus,times}) env \<Rightarrow> ('c, 'm, 'p, 'd) iteration \<Rightarrow> unsigned_int
     \<Rightarrow> error + ('c, 'm, 'p, 'd) iteration" where
  "time_loop env s time_step_n =
     (if time_step_n < n_time_steps (parameters (problem s))
      then (case time_step_body env s time_step_n of
              Inl e \<Rightarrow> Inl e
            | Inr s' \<Rightarrow> time_loop env s' (time_step_n + 1))
      else Inr s)"
  by pat_completeness auto
termination time_loop
proof (relation "measure (\<lambda>(env, s, i). 2 ^ 32 - unat i)", goal_cases)
  case 1
  show ?case by simp
next
  case (2 env s time_step_n s')
  have "unat time_step_n < unat (n_time_steps (parameters (problem s)))"
    using 2(1) by (simp add: word_less_nat_alt)
  moreover have "unat (n_time_steps (parameters (problem s))) < 2 ^ 32"
    using unsigned_less[of "n_time_steps (parameters (problem s))"] by simp
  ultimately have bound: "Suc (unat time_step_n) < 2 ^ 32" by linarith
  then have "(unat time_step_n + 1) mod 2 ^ 32 = Suc (unat time_step_n)" by simp
  then have "unat (time_step_n + 1) = Suc (unat time_step_n)"
    by (simp add: unat_word_ariths)
  with bound show ?case by simp
qed

declare time_loop.simps [simp del]

definition time_iterate ::
  "('c, 'm, 'p, 'd::{zero,plus,times}) env \<Rightarrow> ('c, 'm, 'p, 'd) CDRProblem
     \<Rightarrow> error + ('c, 'm, 'p, 'd) CDRProblem" where
  "time_iterate env p =
     (case time_loop env
             \<lparr>problem = p,
              completely_distributed_solution = Vector_reinit (locally_owned_dofs p),
              current_time = start_time (parameters p)\<rparr> 0 of
        Inl e \<Rightarrow> Inl e
      | Inr s \<Rightarrow> Inr (problem s))"

subsection \<open>run and main\<close>

definition run ::
  "('c, 'm, 'p, 'd::{zero,plus,times}) env \<Rightarrow> ('c, 'm, 'p, 'd) CDRProblem
     \<Rightarrow> error + ('c, 'm, 'p, 'd) CDRProblem" where
  "run env p = time_iterate env (setup_matrices env (setup_geometry env p))"

text \<open>
  \<^verbatim>\<open>main\<close> constructs the problem and runs it; an error anywhere ends the program. The
  source instantiates the template at \<open>dim = 2\<close> with the parameters written out below,
  the numbers being literals of type \<^verbatim>\<open>double\<close>.
\<close>

definition cdr_program ::
  "('c, 'm, 'p, 'd::{zero,plus,minus,times,inverse}) env \<Rightarrow> int \<Rightarrow> 'd Parameters
     \<Rightarrow> error + ('c, 'm, 'p, 'd) CDRProblem" where
  "cdr_program env dimension params =
     (case CDRProblem_ctor env dimension params of
        Inl e \<Rightarrow> Inl e
      | Inr p \<Rightarrow> run env p)"

definition main_parameters :: "('c, 'm, 'p, 'd) env \<Rightarrow> 'd Parameters" where
  "main_parameters env =
     \<lparr>inner_radius = double_literal env 1, outer_radius = double_literal env 2,
      diffusion_coefficient = double_literal env (1 / 10 ^ 3), convection_field = ''-y,x'',
      reaction_coefficient = double_literal env (1 / 10 ^ 4),
      forcing = ''exp(-2*t)*exp(-40*(x - 1.5)^6)*exp(-40*y^6)'',
      time_dependent_forcing = True,
      refinement_level = 3, fe_order = 2,
      start_time = double_literal env 0, stop_time = double_literal env 2, n_time_steps = 200,
      save_interval = 1, patch_level = 3\<rparr>"

definition main ::
  "('c, 'm, 'p, 'd::{zero,plus,minus,times,inverse}) env \<Rightarrow> error + ('c, 'm, 'p, 'd) CDRProblem" where
  "main env = cdr_program env 2 (main_parameters env)"

section \<open>Reading the journal\<close>

text \<open>The calls of one kind that a journal holds, in order.\<close>

fun matrix_calls :: "('m, 'd) call list \<Rightarrow> ('d \<times> 'm \<times> 'm) list" where
  "matrix_calls [] = []"
| "matrix_calls (CreateSystemMatrix dt A0 A # j) = (dt, A0, A) # matrix_calls j"
| "matrix_calls (_ # j) = matrix_calls j"

fun rhs_calls ::
  "('m, 'd) call list
     \<Rightarrow> (unsigned_int \<times> 'd \<times> 'd FunctionParser \<times> 'd Vector \<times> 'd Vector \<times> 'd Vector) list" where
  "rhs_calls [] = []"
| "rhs_calls (CreateSystemRhs n t f u b0 b # j) = (n, t, f, u, b0, b) # rhs_calls j"
| "rhs_calls (_ # j) = rhs_calls j"

fun solve_calls ::
  "('m, 'd) call list
     \<Rightarrow> (unsigned_int \<times> nat \<times> 'd \<times> 'm \<times> 'd Vector \<times> 'd Vector \<times> 'd Vector) list" where
  "solve_calls [] = []"
| "solve_calls (SolverSolve n k tol A x0 b x # j) = (n, k, tol, A, x0, b, x) # solve_calls j"
| "solve_calls (_ # j) = solve_calls j"

fun vtu_files :: "('m, 'd) call list \<Rightarrow> (unsigned_int \<times> string) list" where
  "vtu_files [] = []"
| "vtu_files (WriteVtu n name u sub # j) = (n, name) # vtu_files j"
| "vtu_files (_ # j) = vtu_files j"

fun pvtu_files :: "('m, 'd) call list \<Rightarrow> (unsigned_int \<times> string \<times> string list) list" where
  "pvtu_files [] = []"
| "pvtu_files (WritePvtu n name names # j) = (n, name, names) # pvtu_files j"
| "pvtu_files (_ # j) = pvtu_files j"

text \<open>
  \<open>write_output\<close> changes nothing but the journal; \<open>output_entries\<close> is what it appends.
\<close>

definition output_entries ::
  "('c, 'm, 'p, 'd) env \<Rightarrow> unsigned_int \<Rightarrow> ('c, 'm, 'p, 'd) CDRProblem \<Rightarrow> ('m, 'd) call list" where
  "output_entries env n p =
     WriteVtu n (the (solution_filename env n (locally_owned_subdomain (triangulation p))) @ ''.vtu'')
        (locally_relevant_solution p)
        (replicate (n_active_cells (triangulation p)) (locally_owned_subdomain (triangulation p)))
     # (if this_mpi_process p = 0
        then [WritePvtu n (the (pvtu_filename env n))
                (the (pvtu_filenames env n (map word_of_nat [0..<unat (n_mpi_processes p)])))]
        else [])"

text \<open>
  Two states of the object that differ in nothing the constructor and the setup steps
  established.
\<close>

definition same_setup :: "('c, 'm, 'p, 'd) CDRProblem \<Rightarrow> ('c, 'm, 'p, 'd) CDRProblem \<Rightarrow> bool" where
  "same_setup p p' \<longleftrightarrow>
     space_dimension p' = space_dimension p \<and> parameters p' = parameters p \<and>
     time_step p' = time_step p \<and>
     n_mpi_processes p' = n_mpi_processes p \<and> this_mpi_process p' = this_mpi_process p \<and>
     fe p' = fe p \<and> quad p' = quad p \<and> boundary_description p' = boundary_description p \<and>
     triangulation p' = triangulation p \<and> dof_handler p' = dof_handler p \<and>
     locally_owned_dofs p' = locally_owned_dofs p \<and>
     locally_relevant_dofs p' = locally_relevant_dofs p \<and>
     parser_constants p' = parser_constants p \<and>
     convection_function p' = convection_function p \<and>
     constraints p' = constraints p \<and> system_matrix p' = system_matrix p \<and>
     preconditioner p' = preconditioner p"

definition initial_iteration ::
  "('c, 'm, 'p, 'd::zero) CDRProblem \<Rightarrow> ('c, 'm, 'p, 'd) iteration" where
  "initial_iteration p =
     \<lparr>problem = p,
      completely_distributed_solution = Vector_reinit (locally_owned_dofs p),
      current_time = start_time (parameters p)\<rparr>"

text \<open>
  \<open>time_after t0 dt k\<close>: the time that \<open>k\<close> passes through the loop body make of \<open>t0\<close>, one
  addition of \<open>dt\<close> in each pass. In exact arithmetic it is \<open>t0 + k * dt\<close>; in
  floating-point arithmetic each addition rounds.
\<close>

primrec time_after :: "'d::plus \<Rightarrow> 'd \<Rightarrow> nat \<Rightarrow> 'd" where
  "time_after t0 dt 0 = t0"
| "time_after t0 dt (Suc k) = time_after t0 dt k + dt"

section \<open>What is asked of the collaborators\<close>

text \<open>
  The conditions on the environment that the statements below speak of: a solver that
  never gives up, a number formatter that never refuses, and a parser that accepts the
  expressions of the configuration.
\<close>

definition always_converges :: "('c, 'm, 'p, 'd) env \<Rightarrow> bool" where
  "always_converges env \<longleftrightarrow> (\<forall>k tol A x b P. gmres_solve env k tol A x b P \<noteq> None)"

definition int_to_string_total :: "('c, 'm, 'p, 'd) env \<Rightarrow> bool" where
  "int_to_string_total env \<longleftrightarrow> (\<forall>i digits. int_to_string env i digits \<noteq> None)"

definition convection_accepted :: "('c, 'm, 'p, 'd) env \<Rightarrow> string \<Rightarrow> bool" where
  "convection_accepted env field =
     (case convection_field_clauses field of
        Inl e \<Rightarrow> False
      | Inr clauses \<Rightarrow> list_all (muparser_accepts env [''x'', ''y''] [''pi'']) clauses)"

definition forcing_accepted :: "('c, 'm, 'p, 'd) env \<Rightarrow> string \<Rightarrow> bool" where
  "forcing_accepted env f =
     (let exprs = split_string_list env f (CHR '';'')
      in length exprs = 1 \<and> list_all (muparser_accepts env [''x'', ''y'', ''t''] [''pi'']) exprs)"


section \<open>Two example environments\<close>

text \<open>
  One process on a shell of ten cells with 25 unknowns, a parser that knows variable
  names, their negations and \<open>0\<close>, and a solver that always converges. The arithmetic is
  left open: \<open>sample_env\<close> takes the two conversions to \<^verbatim>\<open>double\<close> and the square root,
  with which the l2 norm of a vector over the 25 unknowns is computed.
\<close>

fun decimal :: "nat \<Rightarrow> string" where
  "decimal n =
     (if n < 10 then [''0123456789'' ! n]
      else decimal (n div 10) @ [''0123456789'' ! (n mod 10)])"

declare decimal.simps [simp del]

definition padded_decimal :: "unsigned_int \<Rightarrow> unsigned_int \<Rightarrow> string option" where
  "padded_decimal i digits =
     (let s = decimal (unat i)
      in Some (if digits = invalid_unsigned_int then s
               else replicate (unat digits - length s) (CHR ''0'') @ s))"

definition ring_mesh :: "nat \<Rightarrow> Mesh" where
  "ring_mesh n =
     \<lparr>mesh_cells =
        map (\<lambda>i. \<lparr>cell_active = True, cell_manifold_id = flat_manifold_id,
                   cell_faces = [i, (i + 1) mod n, n + i, 2 * n + i]\<rparr>) [0..<n],
      mesh_faces =
        replicate n \<lparr>at_boundary = False, face_manifold_id = flat_manifold_id\<rparr> @
        replicate (2 * n) \<lparr>at_boundary = True, face_manifold_id = flat_manifold_id\<rparr>\<rparr>"

definition sample_env ::
  "(unsigned_int \<Rightarrow> 'd) \<Rightarrow> (real \<Rightarrow> 'd) \<Rightarrow> ('d \<Rightarrow> 'd)
     \<Rightarrow> (unit, 'd::{zero,plus,times,inverse}, 'd, 'd) env" where
  "sample_env of_unsigned literal square_root =
     \<lparr>assertions_enabled = True,
      mpi_n_processes = 1,
      mpi_this_process = 0,
      split_string_list = (\<lambda>s c. [s]),
      int_to_string = padded_decimal,
      muparser_accepts =
        (\<lambda>names consts e. e \<in> set names \<or> e \<in> set (map ((#) (CHR ''-'')) names) \<or> e = ''0''),
      hyper_shell = (\<lambda>center r_in r_out. ring_mesh 10),
      refine_global = (\<lambda>level m. m),
      dof_handler_initialize =
        (\<lambda>t degree. \<lparr>n_dofs = 25, dh_locally_owned_dofs = {..<25},
                       dh_locally_relevant_dofs = {..<25},
                       n_locally_owned_dofs_per_processor = [25]\<rparr>),
      ConstraintMatrix_new = (),
      constraints_reinit = (\<lambda>lines. ()),
      make_hanging_node_constraints = (\<lambda>dh c. c),
      interpolate_boundary_values = (\<lambda>dh boundary c. c),
      constraints_close = (\<lambda>c. c),
      constraints_distribute = (\<lambda>c v. v),
      make_sparsity_pattern = (\<lambda>dh rows c. rows \<times> rows),
      distribute_sparsity_pattern = (\<lambda>pattern counts rows. pattern),
      SparseMatrix_new = 0,
      matrix_reinit = (\<lambda>rows pattern. 0),
      matrix_compress = (\<lambda>A. A),
      create_system_matrix = (\<lambda>dh q convection params dt c A. A + (literal 1 + dt)),
      create_system_rhs =
        (\<lambda>dh q convection f params u c b.
           (\<lambda>i. case b i of
                   None \<Rightarrow> None
                 | Some r \<Rightarrow> Some (r + (fp_time f + (case u i of None \<Rightarrow> 0 | Some v \<Rightarrow> v))))),
      vector_compress = (\<lambda>v. v),
      l2_norm =
        (\<lambda>v. square_root
               (fold (\<lambda>i total. total + (case v i of None \<Rightarrow> 0 | Some r \<Rightarrow> r * r)) [0..<25] 0)),
      import_ghosts = (\<lambda>ghosted v. v),
      PreconditionAMG_new = 0,
      amg_initialize = (\<lambda>A. A),
      gmres_solve = (\<lambda>k tol A x b P. Some (\<lambda>i. map_option (\<lambda>r. r / A) (b i))),
      double_of_unsigned = of_unsigned,
      double_literal = literal\<rparr>"

text \<open>
  The first environment computes with real numbers, exactly. The example configuration
  is that of \<^verbatim>\<open>main\<close> with zero forcing, no refinement, five steps and every second step
  saved.
\<close>

definition example_env :: "(unit, real, real, real) env" where
  "example_env =
     sample_env (\<lambda>n. real (unat n)) (\<lambda>x. x) sqrt"

definition example_parameters :: "real Parameters" where
  "example_parameters =
     (main_parameters example_env)\<lparr>forcing := ''0'', refinement_level := 0,
                                   n_time_steps := 5, save_interval := 2\<rparr>"

text \<open>
  The second environment computes as binary64 hardware does while every result stays in
  the normal range: a value of \<open>binary64\<close> is the real number a double denotes, and each
  operation returns the exact result rounded to 53 significant bits, to the nearest such
  number and to the one with an even significand when two are equally near. Overflow,
  subnormal numbers and division by zero are not part of it; none occurs in the run it
  is used for. Its configuration has \<open>start_time = 10 ^ 16\<close>, \<open>stop_time = 10 ^ 16 + 2\<close> (both
  are doubles) and two steps.
\<close>

definition round_half_even :: "real \<Rightarrow> int" where
  "round_half_even x =
     (let n = \<lfloor>x\<rfloor>; r = x - of_int n
      in if r < 1 / 2 then n else if 1 / 2 < r then n + 1 else if even n then n else n + 1)"

definition round_binary64 :: "real \<Rightarrow> real" where
  "round_binary64 x =
     (if x = 0 then 0
      else let ulp = 2 powr of_int (\<lfloor>log 2 \<bar>x\<bar>\<rfloor> - 52)
           in of_int (round_half_even (x / ulp)) * ulp)"

datatype binary64 = Binary64 real

fun binary64_value :: "binary64 \<Rightarrow> real" where
  "binary64_value (Binary64 x) = x"

instantiation binary64 :: "{zero, plus, minus, times, inverse}"
begin

definition zero_binary64 :: binary64 where
  "zero_binary64 = Binary64 0"

definition plus_binary64 :: "binary64 \<Rightarrow> binary64 \<Rightarrow> binary64" where
  "plus_binary64 x y = Binary64 (round_binary64 (binary64_value x + binary64_value y))"

definition minus_binary64 :: "binary64 \<Rightarrow> binary64 \<Rightarrow> binary64" where
  "minus_binary64 x y = Binary64 (round_binary64 (binary64_value x - binary64_value y))"

definition times_binary64 :: "binary64 \<Rightarrow> binary64 \<Rightarrow> binary64" where
  "times_binary64 x y = Binary64 (round_binary64 (binary64_value x * binary64_value y))"

definition divide_binary64 :: "binary64 \<Rightarrow> binary64 \<Rightarrow> binary64" where
  "divide_binary64 x y = Binary64 (round_binary64 (binary64_value x / binary64_value y))"

definition inverse_binary64 :: "binary64 \<Rightarrow> binary64" where
  "inverse_binary64 x = Binary64 (round_binary64 (1 / binary64_value x))"

instance ..

end

definition rounding_env :: "(unit, binary64, binary64, binary64) env" where
  "rounding_env =
     sample_env (\<lambda>n. Binary64 (real (unat n))) (\<lambda>x. Binary64 (round_binary64 x))
       (\<lambda>x. Binary64 (round_binary64 (sqrt (binary64_value x))))"

definition large_start_parameters :: "binary64 Parameters" where
  "large_start_parameters =
     (main_parameters rounding_env)\<lparr>forcing := ''0'', refinement_level := 0,
                                    start_time := Binary64 (10 ^ 16),
                                    stop_time := Binary64 (10 ^ 16 + 2),
                                    n_time_steps := 2\<rparr>"

section \<open>Facts about the loop body\<close>

lemma time_after_real:
  fixes t0 dt :: real
  shows "time_after t0 dt k = t0 + real k * dt"
  by (induction k) (simp_all add: algebra_simps)

lemma time_after_absorbed:
  assumes "t0 + dt = t0"
  shows "time_after t0 dt k = t0"
  using assms by (induction k) simp_all

lemma Vector_set_zero_reinit [simp]: "Vector_set_zero (Vector_reinit is) = Vector_reinit is"
  by (auto simp: Vector_set_zero_def Vector_reinit_def)

lemma Vector_reinit_zero:
  "dom (Vector_reinit S) = S" "ran (Vector_reinit S) \<subseteq> {0}"
  by (auto simp: Vector_reinit_def ran_def dom_def split: if_splits)

lemma write_output_parameters:
  "write_output env n p = Inr p' \<Longrightarrow> parameters p' = parameters p"
  by (auto simp: write_output_def Let_def split: option.splits sum.splits if_splits)

lemma time_step_body_parameters:
  "time_step_body env s n = Inr s' \<Longrightarrow> parameters (problem s') = parameters (problem s)"
  by (auto simp: time_step_body_def Let_def split: option.splits sum.splits if_splits
           dest!: write_output_parameters)

lemma unat_plus_one:
  fixes i :: "'a::len word"
  assumes "i < n"
  shows "unat (i + 1) = Suc (unat i)"
proof -
  have "unat i < unat n" using assms by (simp add: word_less_nat_alt)
  moreover have "unat n < 2 ^ LENGTH('a)" by (rule unsigned_less)
  ultimately have "Suc (unat i) < 2 ^ LENGTH('a)" by linarith
  then have "(unat i + 1) mod 2 ^ LENGTH('a) = Suc (unat i)" by simp
  then show ?thesis by (simp add: unat_word_ariths)
qed

lemma matrix_calls_append: "matrix_calls (xs @ ys) = matrix_calls xs @ matrix_calls ys"
  by (induction xs rule: matrix_calls.induct) simp_all

lemma rhs_calls_append: "rhs_calls (xs @ ys) = rhs_calls xs @ rhs_calls ys"
  by (induction xs rule: rhs_calls.induct) simp_all

lemma solve_calls_append: "solve_calls (xs @ ys) = solve_calls xs @ solve_calls ys"
  by (induction xs rule: solve_calls.induct) simp_all

lemma vtu_files_append: "vtu_files (xs @ ys) = vtu_files xs @ vtu_files ys"
  by (induction xs rule: vtu_files.induct) simp_all

lemma pvtu_files_append: "pvtu_files (xs @ ys) = pvtu_files xs @ pvtu_files ys"
  by (induction xs rule: pvtu_files.induct) simp_all

lemma write_output_Inr:
  assumes "write_output env n p = Inr p'"
  shows "p' = p\<lparr>journal := journal p @ output_entries env n p\<rparr>"
  using assms
  by (auto simp: write_output_def output_entries_def Let_def split: option.splits if_splits)

lemma output_entries_journal [simp]:
  "output_entries env n (p\<lparr>journal := j\<rparr>) = output_entries env n p"
  by (simp add: output_entries_def)

lemma same_setup_refl: "same_setup p p"
  by (simp add: same_setup_def)

lemma same_setup_trans: "same_setup p q \<Longrightarrow> same_setup q r \<Longrightarrow> same_setup p r"
  by (simp add: same_setup_def)

lemma time_step_body_Inr:
  assumes "time_step_body env s n = Inr s'"
  shows "same_setup (problem s) (problem s')"
    and "forcing_function (problem s') = advance_time (time_step (problem s)) (forcing_function (problem s))"
    and "current_time s' = current_time s + time_step (problem s)"
    and "save_interval (parameters (problem s)) \<noteq> 0"
    and "\<exists>x. gmres_solve env (n_dofs (dof_handler (problem s)))
                 (double_literal env (1 / 10 ^ 6) * l2_norm env (system_rhs (problem s')))
                 (system_matrix (problem s)) (completely_distributed_solution s)
                 (system_rhs (problem s')) (preconditioner (problem s)) = Some x \<and>
               completely_distributed_solution s'
                 = constraints_distribute env (constraints (problem s)) x \<and>
               locally_relevant_solution (problem s')
                 = import_ghosts env (locally_relevant_solution (problem s))
                     (constraints_distribute env (constraints (problem s)) x) \<and>
               journal (problem s') = journal (problem s) @
                 [CreateSystemRhs n (current_time s + time_step (problem s))
                    (advance_time (time_step (problem s)) (forcing_function (problem s)))
                    (locally_relevant_solution (problem s))
                    (Vector_set_zero (system_rhs (problem s)))
                    (create_system_rhs env (dof_handler (problem s)) (quad (problem s))
              (convection_function (problem s))
              (advance_time (time_step (problem s)) (forcing_function (problem s)))
              (parameters (problem s)) (locally_relevant_solution (problem s))
              (constraints (problem s)) (Vector_set_zero (system_rhs (problem s)))),
                  SolverSolve n (n_dofs (dof_handler (problem s)))
                    (double_literal env (1 / 10 ^ 6) * l2_norm env (system_rhs (problem s')))
                    (system_matrix (problem s)) (completely_distributed_solution s)
                    (system_rhs (problem s')) x] @
                 (if n mod save_interval (parameters (problem s)) = 0
                  then output_entries env n (problem s') else [])"
    and "system_rhs (problem s') = vector_compress env
           (create_system_rhs env (dof_handler (problem s)) (quad (problem s))
              (convection_function (problem s))
              (advance_time (time_step (problem s)) (forcing_function (problem s)))
              (parameters (problem s)) (locally_relevant_solution (problem s))
              (constraints (problem s)) (Vector_set_zero (system_rhs (problem s))))"
  using assms
  by (auto simp: time_step_body_def Let_def same_setup_def output_entries_def
           split: option.splits sum.splits if_splits dest!: write_output_Inr)

lemma time_step_body_names:
  assumes "time_step_body env s n = Inr s'"
      and "n mod save_interval (parameters (problem s)) = 0"
  shows "solution_filename env n (locally_owned_subdomain (triangulation (problem s))) \<noteq> None"
    and "this_mpi_process (problem s) = 0 \<Longrightarrow> pvtu_filename env n \<noteq> None"
    and "this_mpi_process (problem s) = 0 \<Longrightarrow>
           pvtu_filenames env n (map word_of_nat [0..<unat (n_mpi_processes (problem s))]) \<noteq> None"
  using assms
  by (auto simp: time_step_body_def write_output_def Let_def
           split: option.splits sum.splits if_splits)

lemma projections_output_entries [simp]:
  "matrix_calls (output_entries env n p) = []"
  "rhs_calls (output_entries env n p) = []"
  "solve_calls (output_entries env n p) = []"
  by (simp_all add: output_entries_def)

lemma time_step_body_calls:
  assumes "time_step_body env s n = Inr s'"
  shows "matrix_calls (journal (problem s')) = matrix_calls (journal (problem s))"
    and "rhs_calls (journal (problem s')) = rhs_calls (journal (problem s)) @
           [(n, current_time s + time_step (problem s),
             advance_time (time_step (problem s)) (forcing_function (problem s)),
             locally_relevant_solution (problem s),
             Vector_set_zero (system_rhs (problem s)),
             create_system_rhs env (dof_handler (problem s)) (quad (problem s))
              (convection_function (problem s))
              (advance_time (time_step (problem s)) (forcing_function (problem s)))
              (parameters (problem s)) (locally_relevant_solution (problem s))
              (constraints (problem s)) (Vector_set_zero (system_rhs (problem s))))]"
    and "\<exists>x. gmres_solve env (n_dofs (dof_handler (problem s)))
                 (double_literal env (1 / 10 ^ 6) * l2_norm env (system_rhs (problem s')))
                 (system_matrix (problem s)) (completely_distributed_solution s)
                 (system_rhs (problem s')) (preconditioner (problem s)) = Some x \<and>
               solve_calls (journal (problem s')) = solve_calls (journal (problem s)) @
                 [(n, n_dofs (dof_handler (problem s)),
                   double_literal env (1 / 10 ^ 6) * l2_norm env (system_rhs (problem s')),
                   system_matrix (problem s), completely_distributed_solution s,
                   system_rhs (problem s'), x)]"
proof -
  from time_step_body_Inr(5)[OF assms] obtain x where
    x: "gmres_solve env (n_dofs (dof_handler (problem s)))
          (double_literal env (1 / 10 ^ 6) * l2_norm env (system_rhs (problem s')))
          (system_matrix (problem s)) (completely_distributed_solution s)
          (system_rhs (problem s')) (preconditioner (problem s)) = Some x"
    and j: "journal (problem s') = journal (problem s) @
              [CreateSystemRhs n (current_time s + time_step (problem s))
                 (advance_time (time_step (problem s)) (forcing_function (problem s)))
                 (locally_relevant_solution (problem s))
                 (Vector_set_zero (system_rhs (problem s)))
                 (create_system_rhs env (dof_handler (problem s)) (quad (problem s))
              (convection_function (problem s))
              (advance_time (time_step (problem s)) (forcing_function (problem s)))
              (parameters (problem s)) (locally_relevant_solution (problem s))
              (constraints (problem s)) (Vector_set_zero (system_rhs (problem s)))),
               SolverSolve n (n_dofs (dof_handler (problem s)))
                 (double_literal env (1 / 10 ^ 6) * l2_norm env (system_rhs (problem s')))
                 (system_matrix (problem s)) (completely_distributed_solution s)
                 (system_rhs (problem s')) x] @
              (if n mod save_interval (parameters (problem s)) = 0
               then output_entries env n (problem s') else [])"
    by blast
  show "matrix_calls (journal (problem s')) = matrix_calls (journal (problem s))"
    unfolding j by (simp add: matrix_calls_append)
  show "rhs_calls (journal (problem s')) = rhs_calls (journal (problem s)) @
           [(n, current_time s + time_step (problem s),
             advance_time (time_step (problem s)) (forcing_function (problem s)),
             locally_relevant_solution (problem s),
             Vector_set_zero (system_rhs (problem s)),
             create_system_rhs env (dof_handler (problem s)) (quad (problem s))
              (convection_function (problem s))
              (advance_time (time_step (problem s)) (forcing_function (problem s)))
              (parameters (problem s)) (locally_relevant_solution (problem s))
              (constraints (problem s)) (Vector_set_zero (system_rhs (problem s))))]"
    unfolding j by (simp add: rhs_calls_append)
  have "solve_calls (journal (problem s')) = solve_calls (journal (problem s)) @
                 [(n, n_dofs (dof_handler (problem s)),
                   double_literal env (1 / 10 ^ 6) * l2_norm env (system_rhs (problem s')),
                   system_matrix (problem s), completely_distributed_solution s,
                   system_rhs (problem s'), x)]"
    unfolding j by (simp add: solve_calls_append)
  with x show "\<exists>x. gmres_solve env (n_dofs (dof_handler (problem s)))
                 (double_literal env (1 / 10 ^ 6) * l2_norm env (system_rhs (problem s')))
                 (system_matrix (problem s)) (completely_distributed_solution s)
                 (system_rhs (problem s')) (preconditioner (problem s)) = Some x \<and>
               solve_calls (journal (problem s')) = solve_calls (journal (problem s)) @
                 [(n, n_dofs (dof_handler (problem s)),
                   double_literal env (1 / 10 ^ 6) * l2_norm env (system_rhs (problem s')),
                   system_matrix (problem s), completely_distributed_solution s,
                   system_rhs (problem s'), x)]"
    by blast
qed

lemma vtu_files_output_entries:
  "vtu_files (output_entries env n p) =
     [(n, the (solution_filename env n (locally_owned_subdomain (triangulation p))) @ ''.vtu'')]"
  by (simp add: output_entries_def)

lemma pvtu_files_output_entries:
  "pvtu_files (output_entries env n p) =
     (if this_mpi_process p = 0
      then [(n, the (pvtu_filename env n),
             the (pvtu_filenames env n (map word_of_nat [0..<unat (n_mpi_processes p)])))]
      else [])"
  by (simp add: output_entries_def)

lemma pvtu_filenames_Some:
  "pvtu_filenames env n ranks = Some fs \<Longrightarrow>
     map Some fs = map (\<lambda>r. map_option (\<lambda>name. name @ ''.vtu'') (solution_filename env n r)) ranks"
  by (induction ranks arbitrary: fs) (auto split: option.splits)

section \<open>The loop and its invariants\<close>

lemma word_Suc_le:
  fixes k :: "'a::len word"
  shows "k < N \<Longrightarrow> k + 1 \<le> N"
  by (simp add: word_le_nat_alt word_less_nat_alt unat_plus_one)

lemma time_loop_invariant:
  assumes "time_loop env s k = Inr s'"
      and "k \<le> n_time_steps P0"
      and "parameters (problem s) = P0"
      and "I s (unat k)"
      and "\<And>s1 s2 j. I s1 (unat j) \<Longrightarrow> j < n_time_steps P0 \<Longrightarrow> parameters (problem s1) = P0
              \<Longrightarrow> time_step_body env s1 j = Inr s2 \<Longrightarrow> I s2 (Suc (unat j))"
  shows "I s' (unat (n_time_steps P0))"
  using assms
proof (induction env s k rule: time_loop.induct)
  case (1 env s k)
  show ?case
  proof (cases "k < n_time_steps P0")
    case True
    with 1(2) "1.prems"(3) obtain s1 where body: "time_step_body env s k = Inr s1"
      and rest: "time_loop env s1 (k + 1) = Inr s'"
      by (auto simp: time_loop.simps[of env s k] split: sum.splits)
    have "I s1 (Suc (unat k))"
      using "1.prems"(5)[OF "1.prems"(4) True "1.prems"(3) body] .
    then have inv: "I s1 (unat (k + 1))"
      using True by (simp add: unat_plus_one)
    have params: "parameters (problem s1) = P0"
      using time_step_body_parameters[OF body] "1.prems"(3) by simp
    have less: "k < n_time_steps (parameters (problem s))"
      using True "1.prems"(3) by simp
    show ?thesis
      by (rule "1.IH"[OF less body rest word_Suc_le[OF True] params inv "1.prems"(5)])
  next
    case False
    with "1.prems"(2) have "k = n_time_steps P0" by simp
    moreover from False "1.prems"(1) "1.prems"(3) have "s' = s"
      by (simp add: time_loop.simps[of env s k])
    ultimately show ?thesis using "1.prems"(4) by simp
  qed
qed

lemma time_loop_same_setup:
  assumes "time_loop env s 0 = Inr s'"
  shows "same_setup (problem s) (problem s')"
proof -
  have "same_setup (problem s) (problem s')"
  proof (rule time_loop_invariant[where I = "\<lambda>s1 k. same_setup (problem s) (problem s1)"
                                      and ?P0.0 = "parameters (problem s)", OF assms])
    show "same_setup (problem s) (problem s)" by (rule same_setup_refl)
  next
    fix s1 s2 :: "('a, 'b, 'c, 'd) iteration" and j
    assume "same_setup (problem s) (problem s1)" "time_step_body env s1 j = Inr s2"
    then show "same_setup (problem s) (problem s2)"
      using time_step_body_Inr(1) same_setup_trans by blast
  qed simp_all
  then show ?thesis .
qed

lemma time_loop_rhs_calls:
  assumes "time_loop env s 0 = Inr s'"
      and "rhs_calls (journal (problem s)) = []"
  shows "map (\<lambda>(n, t, f, u, b0, b). (unat n, t, fp_time f)) (rhs_calls (journal (problem s'))) =
         map (\<lambda>i. (i, time_after (current_time s) (time_step (problem s)) (Suc i),
                      time_after (fp_time (forcing_function (problem s))) (time_step (problem s)) (Suc i)))
           [0..<unat (n_time_steps (parameters (problem s)))]"
    and "list_all (\<lambda>(n, t, f, u, b0, b).
                     b = create_system_rhs env (dof_handler (problem s)) (quad (problem s))
                           (convection_function (problem s)) f (parameters (problem s)) u
                           (constraints (problem s)) b0)
           (rhs_calls (journal (problem s')))"
proof -
  let ?g = "\<lambda>(n, t, f, u, b0, b). (unat n, t, fp_time f)"
  let ?dt = "time_step (problem s)"
  let ?row = "\<lambda>i. (i, time_after (current_time s) ?dt (Suc i),
                    time_after (fp_time (forcing_function (problem s))) ?dt (Suc i))"
  let ?tie = "\<lambda>(n, t, f, u, b0, b).
                b = create_system_rhs env (dof_handler (problem s)) (quad (problem s))
                      (convection_function (problem s)) f (parameters (problem s)) u
                      (constraints (problem s)) b0"
  let ?I = "\<lambda>s1 k. same_setup (problem s) (problem s1) \<and>
              current_time s1 = time_after (current_time s) ?dt k \<and>
              fp_time (forcing_function (problem s1))
                = time_after (fp_time (forcing_function (problem s))) ?dt k \<and>
              map ?g (rhs_calls (journal (problem s1))) = map ?row [0..<k] \<and>
              list_all ?tie (rhs_calls (journal (problem s1)))"
  have "?I s' (unat (n_time_steps (parameters (problem s))))"
  proof (rule time_loop_invariant[where I = ?I and ?P0.0 = "parameters (problem s)", OF assms(1)])
    show "?I s (unat (0::unsigned_int))" using assms(2) by (simp add: same_setup_refl)
  next
    fix s1 s2 :: "('a, 'b, 'c, 'd) iteration" and j
    assume inv: "?I s1 (unat j)" and body: "time_step_body env s1 j = Inr s2"
    note facts = time_step_body_Inr[OF body]
    note calls = time_step_body_calls(2)[OF body]
    have same: "time_step (problem s1) = ?dt" "dof_handler (problem s1) = dof_handler (problem s)"
      "quad (problem s1) = quad (problem s)"
      "convection_function (problem s1) = convection_function (problem s)"
      "parameters (problem s1) = parameters (problem s)"
      "constraints (problem s1) = constraints (problem s)"
      using inv by (simp_all add: same_setup_def)
    have "same_setup (problem s) (problem s2)"
      using inv facts(1) same_setup_trans by blast
    moreover have "current_time s2 = time_after (current_time s) ?dt (Suc (unat j))"
      using inv facts(3) same(1) by simp
    moreover have "fp_time (forcing_function (problem s2))
        = time_after (fp_time (forcing_function (problem s))) ?dt (Suc (unat j))"
      using inv facts(2) same(1) by (simp add: advance_time_def set_time_def)
    moreover have "map ?g (rhs_calls (journal (problem s2))) = map ?row [0..<Suc (unat j)]"
      using inv same(1) by (simp add: calls advance_time_def set_time_def)
    moreover have "list_all ?tie (rhs_calls (journal (problem s2)))"
      using inv by (simp add: calls same)
    ultimately show "?I s2 (Suc (unat j))" by blast
  qed simp_all
  then show "map ?g (rhs_calls (journal (problem s'))) =
      map ?row [0..<unat (n_time_steps (parameters (problem s)))]"
    and "list_all ?tie (rhs_calls (journal (problem s')))"
    by blast+
qed

lemma time_loop_solve_calls:
  assumes "time_loop env s 0 = Inr s'"
      and "rhs_calls (journal (problem s)) = []"
      and "solve_calls (journal (problem s)) = []"
  shows "map (\<lambda>(n, k, tol, A, x0, b, x). (unat n, k, A)) (solve_calls (journal (problem s'))) =
         map (\<lambda>i. (i, n_dofs (dof_handler (problem s)), system_matrix (problem s)))
           [0..<unat (n_time_steps (parameters (problem s)))]"
    and "list_all (\<lambda>(n, k, tol, A, x0, b, x).
                     tol = double_literal env (1 / 10 ^ 6) * l2_norm env b \<and>
                     gmres_solve env k tol A x0 b (preconditioner (problem s)) = Some x)
           (solve_calls (journal (problem s')))"
    and "map (\<lambda>(n, t, f, u, b0, b). (n, vector_compress env b)) (rhs_calls (journal (problem s'))) =
         map (\<lambda>(n, k, tol, A, x0, b, x). (n, b)) (solve_calls (journal (problem s')))"
proof -
  let ?row = "\<lambda>i. (i, n_dofs (dof_handler (problem s)), system_matrix (problem s))"
  let ?ok = "\<lambda>(n, k, tol, A, x0, b, x).
               tol = double_literal env (1 / 10 ^ 6) * l2_norm env b \<and>
               gmres_solve env k tol A x0 b (preconditioner (problem s)) = Some x"
  let ?I = "\<lambda>s1 k. same_setup (problem s) (problem s1) \<and>
              map (\<lambda>(n, k, tol, A, x0, b, x). (unat n, k, A)) (solve_calls (journal (problem s1)))
                = map ?row [0..<k] \<and>
              list_all ?ok (solve_calls (journal (problem s1))) \<and>
              map (\<lambda>(n, t, f, u, b0, b). (n, vector_compress env b)) (rhs_calls (journal (problem s1)))
                = map (\<lambda>(n, k, tol, A, x0, b, x). (n, b)) (solve_calls (journal (problem s1)))"
  have "?I s' (unat (n_time_steps (parameters (problem s))))"
  proof (rule time_loop_invariant[where I = ?I and ?P0.0 = "parameters (problem s)", OF assms(1)])
    show "?I s (unat (0::unsigned_int))" using assms(2,3) by (simp add: same_setup_refl)
  next
    fix s1 s2 :: "('a, 'b, 'c, 'd) iteration" and j
    assume inv: "?I s1 (unat j)" and body: "time_step_body env s1 j = Inr s2"
    note facts = time_step_body_Inr[OF body]
    note rhs = time_step_body_calls(2)[OF body]
    from time_step_body_calls(3)[OF body] obtain x where
      x: "gmres_solve env (n_dofs (dof_handler (problem s1)))
            (double_literal env (1 / 10 ^ 6) * l2_norm env (system_rhs (problem s2)))
            (system_matrix (problem s1)) (completely_distributed_solution s1)
            (system_rhs (problem s2)) (preconditioner (problem s1)) = Some x"
      and solve: "solve_calls (journal (problem s2)) = solve_calls (journal (problem s1)) @
            [(j, n_dofs (dof_handler (problem s1)),
              double_literal env (1 / 10 ^ 6) * l2_norm env (system_rhs (problem s2)),
              system_matrix (problem s1), completely_distributed_solution s1,
              system_rhs (problem s2), x)]"
      by blast
    have same: "dof_handler (problem s1) = dof_handler (problem s)"
               "system_matrix (problem s1) = system_matrix (problem s)"
               "preconditioner (problem s1) = preconditioner (problem s)"
      using inv by (simp_all add: same_setup_def)
    have "same_setup (problem s) (problem s2)"
      using inv facts(1) same_setup_trans by blast
    moreover have "map (\<lambda>(n, k, tol, A, x0, b, x). (unat n, k, A)) (solve_calls (journal (problem s2)))
        = map ?row [0..<Suc (unat j)]"
      using inv same by (simp add: solve)
    moreover have "list_all ?ok (solve_calls (journal (problem s2)))"
      using inv x same by (simp add: solve)
    moreover have "map (\<lambda>(n, t, f, u, b0, b). (n, vector_compress env b)) (rhs_calls (journal (problem s2)))
        = map (\<lambda>(n, k, tol, A, x0, b, x). (n, b)) (solve_calls (journal (problem s2)))"
      using inv by (simp add: solve rhs facts(6))
    ultimately show "?I s2 (Suc (unat j))" by blast
  qed simp_all
  then show
    "map (\<lambda>(n, k, tol, A, x0, b, x). (unat n, k, A)) (solve_calls (journal (problem s'))) =
       map ?row [0..<unat (n_time_steps (parameters (problem s)))]"
    "list_all ?ok (solve_calls (journal (problem s')))"
    "map (\<lambda>(n, t, f, u, b0, b). (n, vector_compress env b)) (rhs_calls (journal (problem s'))) =
       map (\<lambda>(n, k, tol, A, x0, b, x). (n, b)) (solve_calls (journal (problem s')))"
    by blast+
qed

lemma time_loop_matrix_calls:
  assumes "time_loop env s 0 = Inr s'"
  shows "matrix_calls (journal (problem s')) = matrix_calls (journal (problem s))"
    and "\<exists>rest. journal (problem s') = journal (problem s) @ rest \<and> matrix_calls rest = []"
proof -
  let ?I = "\<lambda>s1 (k::nat). \<exists>rest. journal (problem s1) = journal (problem s) @ rest \<and>
                                     matrix_calls rest = []"
  have inv: "?I s' (unat (n_time_steps (parameters (problem s))))"
  proof (rule time_loop_invariant[where I = ?I and ?P0.0 = "parameters (problem s)", OF assms(1)])
    show "?I s (unat (0::unsigned_int))" by simp
  next
    fix s1 s2 :: "('a, 'b, 'c, 'd) iteration" and j
    assume inv: "?I s1 (unat j)" and body: "time_step_body env s1 j = Inr s2"
    from inv obtain rest where
      rest: "journal (problem s1) = journal (problem s) @ rest" "matrix_calls rest = []"
      by blast
    from time_step_body_Inr(5)[OF body] obtain more where
      "journal (problem s2) = journal (problem s1) @ more" "matrix_calls more = []"
      by (auto simp: matrix_calls_append)
    with rest have "journal (problem s2) = journal (problem s) @ (rest @ more)"
      "matrix_calls (rest @ more) = []"
      by (simp_all add: matrix_calls_append)
    then show "?I s2 (Suc (unat j))" by blast
  qed simp_all
  then show "\<exists>rest. journal (problem s') = journal (problem s) @ rest \<and> matrix_calls rest = []" .
  with inv show "matrix_calls (journal (problem s')) = matrix_calls (journal (problem s))"
    by (auto simp: matrix_calls_append)
qed

lemma time_loop_first_rhs:
  assumes "time_loop env s 0 = Inr s'"
      and "rhs_calls (journal (problem s)) = []"
      and "0 < n_time_steps (parameters (problem s))"
  shows "\<exists>t f b rest. rhs_calls (journal (problem s'))
           = (0, t, f, locally_relevant_solution (problem s),
              Vector_set_zero (system_rhs (problem s)), b) # rest"
proof -
  let ?u = "locally_relevant_solution (problem s)"
  let ?b0 = "Vector_set_zero (system_rhs (problem s))"
  let ?I = "\<lambda>s1 (k::nat).
              if k = 0 then rhs_calls (journal (problem s1)) = [] \<and>
                            locally_relevant_solution (problem s1) = ?u \<and>
                            system_rhs (problem s1) = system_rhs (problem s)
              else \<exists>t f b rest. rhs_calls (journal (problem s1)) = (0, t, f, ?u, ?b0, b) # rest"
  have "?I s' (unat (n_time_steps (parameters (problem s))))"
  proof (rule time_loop_invariant[where I = ?I and ?P0.0 = "parameters (problem s)", OF assms(1)])
    show "?I s (unat (0::unsigned_int))" using assms(2) by simp
  next
    fix s1 s2 :: "('a, 'b, 'c, 'd) iteration" and j
    assume inv: "?I s1 (unat j)" and body: "time_step_body env s1 j = Inr s2"
    from time_step_body_calls(2)[OF body] obtain t f b where
      j: "rhs_calls (journal (problem s2))
            = rhs_calls (journal (problem s1)) @
              [(j, t, f, locally_relevant_solution (problem s1),
                Vector_set_zero (system_rhs (problem s1)), b)]"
      by blast
    show "?I s2 (Suc (unat j))"
    proof (cases "unat j = 0")
      case True
      then have "j = 0" by (simp add: unat_eq_0)
      with inv j True show ?thesis by simp
    next
      case False
      with inv j show ?thesis by auto
    qed
  qed simp_all
  moreover have "unat (n_time_steps (parameters (problem s))) \<noteq> 0"
    using assms(3) by (simp add: unat_eq_0)
  ultimately show ?thesis by simp
qed

lemma word_mod_eq_0_iff:
  fixes j :: "'a::len word"
  shows "j mod K = 0 \<longleftrightarrow> unat j mod unat K = 0"
proof -
  have "j mod K = 0 \<longleftrightarrow> unat (j mod K) = 0" by (simp add: unat_eq_0)
  then show ?thesis by (simp add: unat_mod)
qed

lemma time_loop_vtu_files:
  assumes "time_loop env s 0 = Inr s'"
      and "vtu_files (journal (problem s)) = []"
  shows "map (\<lambda>(n, name). (unat n, Some name)) (vtu_files (journal (problem s'))) =
         map (\<lambda>i. (i, map_option (\<lambda>name. name @ ''.vtu'')
                         (solution_filename env (word_of_nat i)
                            (locally_owned_subdomain (triangulation (problem s))))))
           (filter (\<lambda>i. i mod unat (save_interval (parameters (problem s))) = 0)
              [0..<unat (n_time_steps (parameters (problem s)))])"
proof -
  let ?K = "save_interval (parameters (problem s))"
  let ?owner = "locally_owned_subdomain (triangulation (problem s))"
  let ?row = "\<lambda>i. (i, map_option (\<lambda>name. name @ ''.vtu'')
                        (solution_filename env (word_of_nat i) ?owner))"
  let ?I = "\<lambda>s1 k. same_setup (problem s) (problem s1) \<and>
              map (\<lambda>(n, name). (unat n, Some name)) (vtu_files (journal (problem s1)))
                = map ?row (filter (\<lambda>i. i mod unat ?K = 0) [0..<k])"
  have "?I s' (unat (n_time_steps (parameters (problem s))))"
  proof (rule time_loop_invariant[where I = ?I and ?P0.0 = "parameters (problem s)", OF assms(1)])
    show "?I s (unat (0::unsigned_int))" using assms(2) by (simp add: same_setup_refl)
  next
    fix s1 s2 :: "('a, 'b, 'c, 'd) iteration" and j
    assume inv: "?I s1 (unat j)" and body: "time_step_body env s1 j = Inr s2"
    note facts = time_step_body_Inr[OF body]
    have same1: "parameters (problem s1) = parameters (problem s)"
                "triangulation (problem s1) = triangulation (problem s)"
      using inv by (simp_all add: same_setup_def)
    have same2: "same_setup (problem s) (problem s2)"
      using inv facts(1) same_setup_trans by blast
    then have tria2: "triangulation (problem s2) = triangulation (problem s)"
      by (simp add: same_setup_def)
    from facts(5) obtain more where more: "journal (problem s2) = journal (problem s1) @ more"
      "vtu_files more =
         vtu_files (if j mod ?K = 0 then output_entries env j (problem s2) else [])"
      unfolding same1 by (auto simp: vtu_files_append)
    have j: "vtu_files (journal (problem s2)) = vtu_files (journal (problem s1)) @
            (if j mod ?K = 0 then [(j, the (solution_filename env j ?owner) @ ''.vtu'')] else [])"
      unfolding more vtu_files_append
      by (cases "j mod ?K = 0") (simp_all add: vtu_files_output_entries tria2)
    show "?I s2 (Suc (unat j))"
    proof (cases "j mod ?K = 0")
      case True
      then obtain name where "solution_filename env j ?owner = Some name"
        using time_step_body_names(1)[OF body] same1 by auto
      with True inv same2 show ?thesis
        by (simp add: j word_mod_eq_0_iff)
    next
      case False
      with inv same2 show ?thesis
        by (simp add: j word_mod_eq_0_iff)
    qed
  qed simp_all
  then show ?thesis by blast
qed

lemma time_loop_pvtu_files:
  assumes "time_loop env s 0 = Inr s'"
      and "pvtu_files (journal (problem s)) = []"
  shows "map (\<lambda>(n, name, names). (unat n, Some name, map Some names))
           (pvtu_files (journal (problem s'))) =
         (if this_mpi_process (problem s) = 0
          then map (\<lambda>i. (i, pvtu_filename env (word_of_nat i),
                          map (\<lambda>r. map_option (\<lambda>name. name @ ''.vtu'')
                                     (solution_filename env (word_of_nat i) r))
                            (map word_of_nat [0..<unat (n_mpi_processes (problem s))])))
                 (filter (\<lambda>i. i mod unat (save_interval (parameters (problem s))) = 0)
                    [0..<unat (n_time_steps (parameters (problem s)))])
          else [])"
proof -
  let ?K = "save_interval (parameters (problem s))"
  let ?ranks = "map word_of_nat [0..<unat (n_mpi_processes (problem s))] :: unsigned_int list"
  let ?row = "\<lambda>i. (i, pvtu_filename env (word_of_nat i),
                    map (\<lambda>r. map_option (\<lambda>name. name @ ''.vtu'')
                               (solution_filename env (word_of_nat i) r)) ?ranks)"
  let ?I = "\<lambda>s1 k. same_setup (problem s) (problem s1) \<and>
              map (\<lambda>(n, name, names). (unat n, Some name, map Some names))
                (pvtu_files (journal (problem s1)))
                = (if this_mpi_process (problem s) = 0
                   then map ?row (filter (\<lambda>i. i mod unat ?K = 0) [0..<k]) else [])"
  have "?I s' (unat (n_time_steps (parameters (problem s))))"
  proof (rule time_loop_invariant[where I = ?I and ?P0.0 = "parameters (problem s)", OF assms(1)])
    show "?I s (unat (0::unsigned_int))" using assms(2) by (simp add: same_setup_refl)
  next
    fix s1 s2 :: "('a, 'b, 'c, 'd) iteration" and j
    assume inv: "?I s1 (unat j)" and body: "time_step_body env s1 j = Inr s2"
    note facts = time_step_body_Inr[OF body]
    have same1: "parameters (problem s1) = parameters (problem s)"
                "this_mpi_process (problem s1) = this_mpi_process (problem s)"
                "n_mpi_processes (problem s1) = n_mpi_processes (problem s)"
      using inv by (simp_all add: same_setup_def)
    have same2: "same_setup (problem s) (problem s2)"
      using inv facts(1) same_setup_trans by blast
    then have proc2: "this_mpi_process (problem s2) = this_mpi_process (problem s)"
                     "n_mpi_processes (problem s2) = n_mpi_processes (problem s)"
      by (simp_all add: same_setup_def)
    from facts(5) obtain more where more: "journal (problem s2) = journal (problem s1) @ more"
      "pvtu_files more =
         pvtu_files (if j mod ?K = 0 then output_entries env j (problem s2) else [])"
      unfolding same1 by (auto simp: pvtu_files_append)
    have j: "pvtu_files (journal (problem s2)) = pvtu_files (journal (problem s1)) @
            (if j mod ?K = 0 \<and> this_mpi_process (problem s) = 0
             then [(j, the (pvtu_filename env j), the (pvtu_filenames env j ?ranks))] else [])"
      unfolding more pvtu_files_append
      by (cases "j mod ?K = 0"; cases "this_mpi_process (problem s) = 0")
         (simp_all add: pvtu_files_output_entries proc2)
    show "?I s2 (Suc (unat j))"
    proof (cases "j mod ?K = 0 \<and> this_mpi_process (problem s) = 0")
      case True
      then obtain name names where name: "pvtu_filename env j = Some name"
        and names: "pvtu_filenames env j ?ranks = Some names"
        using time_step_body_names(2,3)[OF body] same1 by auto
      note pvtu_filenames_Some[OF names]
      with True inv same2 name names show ?thesis
        by (simp add: j word_mod_eq_0_iff)
    next
      case False
      with inv same2 show ?thesis
        by (auto simp: j word_mod_eq_0_iff)
    qed
  qed simp_all
  then show ?thesis by blast
qed

section \<open>Runs that complete\<close>

lemma int_to_string_totalD:
  "int_to_string_total env \<Longrightarrow> \<exists>y. int_to_string env i digits = Some y"
  by (simp add: int_to_string_total_def)

lemma solution_filename_total:
  assumes "int_to_string_total env"
  shows "\<exists>name. solution_filename env n r = Some name"
proof -
  obtain a b where "int_to_string env n invalid_unsigned_int = Some a" "int_to_string env r 4 = Some b"
    using int_to_string_totalD[OF assms] by blast
  then show ?thesis by (simp add: solution_filename_def)
qed

lemma pvtu_filename_total:
  assumes "int_to_string_total env"
  shows "\<exists>name. pvtu_filename env n = Some name"
proof -
  obtain a where "int_to_string env n invalid_unsigned_int = Some a"
    using int_to_string_totalD[OF assms] by blast
  then show ?thesis by (simp add: pvtu_filename_def)
qed

lemma pvtu_filenames_total:
  assumes "int_to_string_total env"
  shows "\<exists>names. pvtu_filenames env n ranks = Some names"
proof (induction ranks)
  case Nil
  show ?case by simp
next
  case (Cons r ranks)
  obtain name where "solution_filename env n r = Some name"
    using solution_filename_total[OF assms] by blast
  with Cons show ?case by auto
qed

lemma write_output_total:
  assumes "int_to_string_total env"
  shows "write_output env n p \<noteq> Inl e"
proof -
  obtain name where "solution_filename env n (locally_owned_subdomain (triangulation p)) = Some name"
    using solution_filename_total[OF assms] by blast
  moreover obtain names where
    "pvtu_filenames env n (map word_of_nat [0..<unat (n_mpi_processes p)]) = Some names"
    using pvtu_filenames_total[OF assms] by blast
  moreover obtain master where "pvtu_filename env n = Some master"
    using pvtu_filename_total[OF assms] by blast
  ultimately show ?thesis by (simp add: write_output_def Let_def)
qed

lemma time_step_body_total:
  assumes "always_converges env" "int_to_string_total env"
      and "save_interval (parameters (problem s)) \<noteq> 0"
  shows "\<exists>s'. time_step_body env s n = Inr s'"
proof -
  have solve: "\<And>k tol A x b P. gmres_solve env k tol A x b P \<noteq> None"
    using assms(1) by (simp add: always_converges_def)
  show ?thesis
    using assms(3) solve write_output_total[OF assms(2)]
    by (simp add: time_step_body_def Let_def split: option.splits sum.splits)
qed

lemma time_loop_total:
  assumes "always_converges env" "int_to_string_total env"
      and "save_interval (parameters (problem s)) \<noteq> 0"
  shows "\<exists>s'. time_loop env s k = Inr s'"
  using assms
proof (induction env s k rule: time_loop.induct)
  case (1 env s k)
  show ?case
  proof (cases "k < n_time_steps (parameters (problem s))")
    case True
    obtain s1 where body: "time_step_body env s k = Inr s1"
      using time_step_body_total[OF "1.prems"] by blast
    have "save_interval (parameters (problem s1)) \<noteq> 0"
      using time_step_body_parameters[OF body] "1.prems"(3) by simp
    from "1.IH"[OF True body "1.prems"(1,2) this] True body show ?thesis
      by (simp add: time_loop.simps[of env s k])
  next
    case False
    then show ?thesis by (simp add: time_loop.simps[of env s k])
  qed
qed

section \<open>The constructor and the two setup steps\<close>

lemma unat_npos: "unat npos = 2 ^ 64 - 1"
  by (simp add: npos_def unsigned_minus_1_eq_mask mask_eq_exp_minus_1)

lemma unat_of_nat_size_t:
  assumes "n < 2 ^ 64"
  shows "unat (of_nat n :: size_t) = n"
  using assms by (simp add: unat_of_nat)

lemma unat_of_nat_plus_one_size_t:
  assumes "n < m" "m < (2::nat) ^ 64"
  shows "unat (of_nat n + 1 :: size_t) = Suc n"
proof -
  have "Suc n < 2 ^ 64" using assms by linarith
  then have "unat (of_nat (Suc n) :: size_t) = Suc n" by (rule unat_of_nat_size_t)
  then show ?thesis by (simp add: add.commute)
qed

lemma convection_field_clauses_eq:
  assumes "length field < 2 ^ 64"
  shows "convection_field_clauses field =
           Inr [takeWhile (\<lambda>c. c \<noteq> CHR '','') field,
                if CHR '','' \<in> set field then tl (dropWhile (\<lambda>c. c \<noteq> CHR '','') field)
                else field]"
proof -
  let ?P = "\<lambda>c. c \<noteq> CHR '',''"
  let ?k = "length (takeWhile ?P field)"
  have k_le: "?k \<le> length field" by (rule length_takeWhile_le)
  show ?thesis
  proof (cases "CHR '','' \<in> set field")
    case True
    then have "takeWhile ?P field \<noteq> field"
      by (auto simp: takeWhile_eq_all_conv)
    then have "?k \<noteq> length field"
      by (metis takeWhile_eq_take take_all order_refl)
    with k_le have less: "?k < length field" by simp
    then have find: "find_first_of field '','' = of_nat ?k"
      by (simp add: find_first_of_def)
    have "?k < 2 ^ 64" using less assms by linarith
    then have u1: "unat (of_nat ?k :: size_t) = ?k" by (rule unat_of_nat_size_t)
    have u2: "unat (of_nat ?k + 1 :: size_t) = Suc ?k"
      using less assms by (rule unat_of_nat_plus_one_size_t)
    have t: "take ?k field = takeWhile ?P field"
      by (rule takeWhile_eq_take[symmetric])
    have d: "drop (Suc ?k) field = tl (dropWhile ?P field)"
      by (simp add: dropWhile_eq_drop drop_Suc tl_drop)
    have "length (tl (dropWhile ?P field)) \<le> length field"
      using length_dropWhile_le[of ?P field] by simp
    then have all: "take (unat npos) (tl (dropWhile ?P field)) = tl (dropWhile ?P field)"
      using assms by (simp add: unat_npos)
    show ?thesis
      using True less
      by (simp add: convection_field_clauses_def substr_def find u1 u2 t d all)
  next
    case False
    then have all: "takeWhile ?P field = field"
      by (auto simp: takeWhile_eq_all_conv)
    have len: "?k = length field" by (simp only: all)
    have find: "find_first_of field '','' = npos"
      by (simp add: find_first_of_def Let_def len)
    have zero: "npos + 1 = (0::size_t)" by (simp add: npos_def)
    have whole: "take (unat npos) field = field"
      using assms by (simp add: unat_npos)
    show ?thesis
      using False
      by (simp add: convection_field_clauses_def substr_def find zero whole all)
  qed
qed

lemma length_convection_field_clauses:
  "convection_field_clauses field = Inr clauses \<Longrightarrow> length clauses = 2"
  by (auto simp: convection_field_clauses_def split: sum.splits)

lemma CDRProblem_ctor_isl_2:
  "isl (CDRProblem_ctor env 2 params) \<longleftrightarrow>
     \<not> (convection_accepted env (convection_field params) \<and> forcing_accepted env (forcing params))"
proof (cases "convection_field_clauses (convection_field params)")
  case (Inl e)
  then show ?thesis by (simp add: CDRProblem_ctor_def convection_accepted_def)
next
  case (Inr clauses)
  then have "length clauses = 2" by (rule length_convection_field_clauses)
  with Inr show ?thesis
    by (auto simp: CDRProblem_ctor_def convection_accepted_def forcing_accepted_def Let_def
          FunctionParser_initialize_def FunctionParser_initialize_single_def FunctionParser_new_def
          split: sum.splits)
qed

lemma CDRProblem_ctor_not_2:
  assumes "dimension \<noteq> 2"
  shows "isl (CDRProblem_ctor env dimension params)"
    and "assertions_enabled env \<Longrightarrow> CDRProblem_ctor env dimension params = Inl ExcNotImplemented"
  using assms
  by (auto simp: CDRProblem_ctor_def FunctionParser_initialize_def Let_def split: sum.splits)

lemma CDRProblem_ctor_2_not_ExcNotImplemented:
  "CDRProblem_ctor env 2 params \<noteq> Inl ExcNotImplemented"
  by (auto simp: CDRProblem_ctor_def FunctionParser_initialize_def Let_def
        FunctionParser_initialize_single_def convection_field_clauses_def substr_def
        split: sum.splits if_splits)

lemma CDRProblem_ctor_Inr:
  assumes "CDRProblem_ctor env d params = Inr p"
  shows "parameters p = params"
    and "time_step p = (stop_time params - start_time params)
                         / double_of_unsigned env (n_time_steps params)"
    and "journal p = []"
    and "fp_time (forcing_function p) = start_time params"
    and "this_mpi_process p = mpi_this_process env"
    and "n_mpi_processes p = mpi_n_processes env"
    and "locally_owned_subdomain (triangulation p) = mpi_this_process env"
    and "space_dimension p = d"
  using assms
  by (auto simp: CDRProblem_ctor_def Let_def set_time_def Triangulation_new_def
           split: if_splits sum.splits)

lemma setup_geometry_simps:
  "parameters (setup_geometry env p) = parameters p"
  "time_step (setup_geometry env p) = time_step p"
  "journal (setup_geometry env p) = journal p"
  "forcing_function (setup_geometry env p) = forcing_function p"
  "this_mpi_process (setup_geometry env p) = this_mpi_process p"
  "n_mpi_processes (setup_geometry env p) = n_mpi_processes p"
  "locally_owned_subdomain (triangulation (setup_geometry env p))
     = locally_owned_subdomain (triangulation p)"
  "locally_relevant_solution (setup_geometry env p)
     = Vector_reinit (locally_relevant_dofs (setup_geometry env p))"
  by (simp_all add: setup_geometry_def Let_def set_manifold_def)

lemma setup_matrices_simps:
  "parameters (setup_matrices env p) = parameters p"
  "time_step (setup_matrices env p) = time_step p"
  "forcing_function (setup_matrices env p) = forcing_function p"
  "this_mpi_process (setup_matrices env p) = this_mpi_process p"
  "n_mpi_processes (setup_matrices env p) = n_mpi_processes p"
  "triangulation (setup_matrices env p) = triangulation p"
  "dof_handler (setup_matrices env p) = dof_handler p"
  "locally_relevant_dofs (setup_matrices env p) = locally_relevant_dofs p"
  "locally_relevant_solution (setup_matrices env p) = locally_relevant_solution p"
  "quad (setup_matrices env p) = quad p"
  "convection_function (setup_matrices env p) = convection_function p"
  "locally_owned_dofs (setup_matrices env p) = locally_owned_dofs p"
  "system_rhs (setup_matrices env p) = Vector_reinit (locally_owned_dofs p)"
  "preconditioner (setup_matrices env p) = amg_initialize env (system_matrix (setup_matrices env p))"
  by (simp_all add: setup_matrices_def Let_def)

lemma setup_matrices_journal:
  "\<exists>A0. journal (setup_matrices env p) = journal p @
           [CreateSystemMatrix (time_step p) A0
              (create_system_matrix env (dof_handler p) (quad p) (convection_function p)
                 (parameters p) (time_step p) (constraints (setup_matrices env p)) A0)] \<and>
        system_matrix (setup_matrices env p) = matrix_compress env
          (create_system_matrix env (dof_handler p) (quad p) (convection_function p)
             (parameters p) (time_step p) (constraints (setup_matrices env p)) A0)"
  by (simp add: setup_matrices_def Let_def)

lemma setup_facts:
  assumes "CDRProblem_ctor env d params = Inr p0"
  shows "parameters (setup_matrices env (setup_geometry env p0)) = params"
    and "time_step (setup_matrices env (setup_geometry env p0))
           = (stop_time params - start_time params) / double_of_unsigned env (n_time_steps params)"
    and "fp_time (forcing_function (setup_matrices env (setup_geometry env p0))) = start_time params"
    and "this_mpi_process (setup_matrices env (setup_geometry env p0)) = mpi_this_process env"
    and "n_mpi_processes (setup_matrices env (setup_geometry env p0)) = mpi_n_processes env"
    and "locally_owned_subdomain (triangulation (setup_matrices env (setup_geometry env p0)))
           = mpi_this_process env"
    and "locally_relevant_solution (setup_matrices env (setup_geometry env p0))
           = Vector_reinit (locally_relevant_dofs (setup_matrices env (setup_geometry env p0)))"
    and "\<exists>A0. journal (setup_matrices env (setup_geometry env p0)) =
             [CreateSystemMatrix (time_step (setup_matrices env (setup_geometry env p0))) A0
                (create_system_matrix env
                   (dof_handler (setup_matrices env (setup_geometry env p0)))
                   (quad (setup_matrices env (setup_geometry env p0)))
                   (convection_function (setup_matrices env (setup_geometry env p0)))
                   (parameters (setup_matrices env (setup_geometry env p0)))
                   (time_step (setup_matrices env (setup_geometry env p0)))
                   (constraints (setup_matrices env (setup_geometry env p0))) A0)] \<and>
           system_matrix (setup_matrices env (setup_geometry env p0)) = matrix_compress env
             (create_system_matrix env
                (dof_handler (setup_matrices env (setup_geometry env p0)))
                (quad (setup_matrices env (setup_geometry env p0)))
                (convection_function (setup_matrices env (setup_geometry env p0)))
                (parameters (setup_matrices env (setup_geometry env p0)))
                (time_step (setup_matrices env (setup_geometry env p0)))
                (constraints (setup_matrices env (setup_geometry env p0))) A0)"
    and "system_rhs (setup_matrices env (setup_geometry env p0))
           = Vector_reinit (locally_owned_dofs (setup_matrices env (setup_geometry env p0)))"
proof -
  note ctor = CDRProblem_ctor_Inr[OF assms]
  show "parameters (setup_matrices env (setup_geometry env p0)) = params"
    "time_step (setup_matrices env (setup_geometry env p0))
           = (stop_time params - start_time params) / double_of_unsigned env (n_time_steps params)"
    "fp_time (forcing_function (setup_matrices env (setup_geometry env p0))) = start_time params"
    "this_mpi_process (setup_matrices env (setup_geometry env p0)) = mpi_this_process env"
    "n_mpi_processes (setup_matrices env (setup_geometry env p0)) = mpi_n_processes env"
    "locally_owned_subdomain (triangulation (setup_matrices env (setup_geometry env p0)))
           = mpi_this_process env"
    "locally_relevant_solution (setup_matrices env (setup_geometry env p0))
           = Vector_reinit (locally_relevant_dofs (setup_matrices env (setup_geometry env p0)))"
    "system_rhs (setup_matrices env (setup_geometry env p0))
           = Vector_reinit (locally_owned_dofs (setup_matrices env (setup_geometry env p0)))"
    using ctor by (simp_all add: setup_matrices_simps setup_geometry_simps)
  from setup_matrices_journal[of env "setup_geometry env p0"] obtain A0 where
    "journal (setup_matrices env (setup_geometry env p0)) = journal (setup_geometry env p0) @
       [CreateSystemMatrix (time_step (setup_geometry env p0)) A0
          (create_system_matrix env (dof_handler (setup_geometry env p0)) (quad (setup_geometry env p0))
             (convection_function (setup_geometry env p0)) (parameters (setup_geometry env p0))
             (time_step (setup_geometry env p0))
             (constraints (setup_matrices env (setup_geometry env p0))) A0)]"
    "system_matrix (setup_matrices env (setup_geometry env p0)) = matrix_compress env
       (create_system_matrix env (dof_handler (setup_geometry env p0)) (quad (setup_geometry env p0))
          (convection_function (setup_geometry env p0)) (parameters (setup_geometry env p0))
          (time_step (setup_geometry env p0))
          (constraints (setup_matrices env (setup_geometry env p0))) A0)"
    by blast
  then show "\<exists>A0. journal (setup_matrices env (setup_geometry env p0)) =
             [CreateSystemMatrix (time_step (setup_matrices env (setup_geometry env p0))) A0
                (create_system_matrix env
                   (dof_handler (setup_matrices env (setup_geometry env p0)))
                   (quad (setup_matrices env (setup_geometry env p0)))
                   (convection_function (setup_matrices env (setup_geometry env p0)))
                   (parameters (setup_matrices env (setup_geometry env p0)))
                   (time_step (setup_matrices env (setup_geometry env p0)))
                   (constraints (setup_matrices env (setup_geometry env p0))) A0)] \<and>
           system_matrix (setup_matrices env (setup_geometry env p0)) = matrix_compress env
             (create_system_matrix env
                (dof_handler (setup_matrices env (setup_geometry env p0)))
                (quad (setup_matrices env (setup_geometry env p0)))
                (convection_function (setup_matrices env (setup_geometry env p0)))
                (parameters (setup_matrices env (setup_geometry env p0)))
                (time_step (setup_matrices env (setup_geometry env p0)))
                (constraints (setup_matrices env (setup_geometry env p0))) A0)"
    using ctor(3) by (auto simp: setup_matrices_simps setup_geometry_simps)
qed

section \<open>The journal of a whole run\<close>

lemma cdr_program_Inr:
  assumes "cdr_program env d params = Inr p'"
  obtains p0 s' where "CDRProblem_ctor env d params = Inr p0"
    and "time_loop env (initial_iteration (setup_matrices env (setup_geometry env p0))) 0 = Inr s'"
    and "p' = problem s'"
  using assms
  by (auto simp: cdr_program_def run_def time_iterate_def initial_iteration_def split: sum.splits)

lemma initial_iteration_simps [simp]:
  "problem (initial_iteration p) = p"
  "current_time (initial_iteration p) = start_time (parameters p)"
  by (simp_all add: initial_iteration_def)

lemma cdr_program_same_setup:
  assumes "cdr_program env d params = Inr p'"
  obtains p0 where "CDRProblem_ctor env d params = Inr p0"
    and "same_setup (setup_matrices env (setup_geometry env p0)) p'"
proof -
  from assms obtain p0 s' where ctor: "CDRProblem_ctor env d params = Inr p0"
    and loop: "time_loop env (initial_iteration (setup_matrices env (setup_geometry env p0))) 0 = Inr s'"
    and p': "p' = problem s'"
    by (rule cdr_program_Inr)
  from time_loop_same_setup[OF loop] p' ctor that show ?thesis by simp
qed

lemma cdr_program_rhs_calls:
  assumes "cdr_program env d params = Inr p'"
  shows "map (\<lambda>(n, t, f, u, b0, b). (unat n, t, fp_time f)) (rhs_calls (journal p')) =
         map (\<lambda>i. (i, time_after (start_time params) (time_step p') (Suc i),
                      time_after (start_time params) (time_step p') (Suc i)))
           [0..<unat (n_time_steps params)]"
    and "list_all (\<lambda>(n, t, f, u, b0, b).
                     b = create_system_rhs env (dof_handler p') (quad p') (convection_function p')
                           f params u (constraints p') b0)
           (rhs_calls (journal p'))"
    and "time_step p' = (stop_time params - start_time params)
                          / double_of_unsigned env (n_time_steps params)"
proof -
  from assms obtain p0 s' where ctor: "CDRProblem_ctor env d params = Inr p0"
    and loop: "time_loop env (initial_iteration (setup_matrices env (setup_geometry env p0))) 0 = Inr s'"
    and p': "p' = problem s'"
    by (rule cdr_program_Inr)
  let ?q = "setup_matrices env (setup_geometry env p0)"
  note start = setup_facts[OF ctor]
  from start(8) have none: "rhs_calls (journal (problem (initial_iteration ?q))) = []"
    by auto
  have same: "same_setup ?q p'"
    using time_loop_same_setup[OF loop] by (simp add: p')
  then have eq: "dof_handler ?q = dof_handler p'" "quad ?q = quad p'"
    "convection_function ?q = convection_function p'" "constraints ?q = constraints p'"
    "time_step ?q = time_step p'"
    by (simp_all add: same_setup_def)
  note calls = time_loop_rhs_calls[OF loop none]
  from calls(1) show "map (\<lambda>(n, t, f, u, b0, b). (unat n, t, fp_time f)) (rhs_calls (journal p')) =
         map (\<lambda>i. (i, time_after (start_time params) (time_step p') (Suc i),
                      time_after (start_time params) (time_step p') (Suc i)))
           [0..<unat (n_time_steps params)]"
    by (simp add: p'[symmetric] start(1,3) eq)
  from calls(2) show "list_all (\<lambda>(n, t, f, u, b0, b).
                     b = create_system_rhs env (dof_handler p') (quad p') (convection_function p')
                           f params u (constraints p') b0)
           (rhs_calls (journal p'))"
    by (simp add: p'[symmetric] start(1) eq)
  from start(2) eq(5) show "time_step p' = (stop_time params - start_time params)
                          / double_of_unsigned env (n_time_steps params)"
    by simp
qed

lemma cdr_program_first_rhs:
  assumes "cdr_program env d params = Inr p'" and "0 < n_time_steps params"
  shows "\<exists>t f b rest. rhs_calls (journal p')
           = (0, t, f, Vector_reinit (locally_relevant_dofs p'),
              Vector_set_zero (Vector_reinit (locally_owned_dofs p')), b) # rest"
proof -
  from assms(1) obtain p0 s' where ctor: "CDRProblem_ctor env d params = Inr p0"
    and loop: "time_loop env (initial_iteration (setup_matrices env (setup_geometry env p0))) 0 = Inr s'"
    and p': "p' = problem s'"
    by (rule cdr_program_Inr)
  note start = setup_facts[OF ctor]
  from start(8) have none: "rhs_calls (journal (setup_matrices env (setup_geometry env p0))) = []"
    by auto
  have "locally_relevant_dofs p' = locally_relevant_dofs (setup_matrices env (setup_geometry env p0))"
    "locally_owned_dofs p' = locally_owned_dofs (setup_matrices env (setup_geometry env p0))"
    using time_loop_same_setup[OF loop] by (simp_all add: p' same_setup_def)
  with time_loop_first_rhs[OF loop] none assms(2) show ?thesis
    by (simp add: p' start(1,7,9))
qed

lemma cdr_program_solve_calls:
  assumes "cdr_program env d params = Inr p'"
  shows "map (\<lambda>(n, k, tol, A, x0, b, x). (unat n, k, A)) (solve_calls (journal p')) =
         map (\<lambda>i. (i, n_dofs (dof_handler p'), system_matrix p')) [0..<unat (n_time_steps params)]"
    and "list_all (\<lambda>(n, k, tol, A, x0, b, x).
                     tol = double_literal env (1 / 10 ^ 6) * l2_norm env b \<and>
                     gmres_solve env k tol A x0 b (preconditioner p') = Some x)
           (solve_calls (journal p'))"
    and "map (\<lambda>(n, t, f, u, b0, b). (n, vector_compress env b)) (rhs_calls (journal p')) =
         map (\<lambda>(n, k, tol, A, x0, b, x). (n, b)) (solve_calls (journal p'))"
proof -
  from assms obtain p0 s' where ctor: "CDRProblem_ctor env d params = Inr p0"
    and loop: "time_loop env (initial_iteration (setup_matrices env (setup_geometry env p0))) 0 = Inr s'"
    and p': "p' = problem s'"
    by (rule cdr_program_Inr)
  note start = setup_facts[OF ctor]
  from start(8) have none:
    "rhs_calls (journal (problem (initial_iteration (setup_matrices env (setup_geometry env p0))))) = []"
    "solve_calls (journal (problem (initial_iteration (setup_matrices env (setup_geometry env p0))))) = []"
    by auto
  have same: "dof_handler p' = dof_handler (setup_matrices env (setup_geometry env p0))"
    "system_matrix p' = system_matrix (setup_matrices env (setup_geometry env p0))"
    "preconditioner p' = preconditioner (setup_matrices env (setup_geometry env p0))"
    using time_loop_same_setup[OF loop] by (simp_all add: p' same_setup_def)
  note facts = time_loop_solve_calls[OF loop none]
  from facts(1) show "map (\<lambda>(n, k, tol, A, x0, b, x). (unat n, k, A)) (solve_calls (journal p')) =
         map (\<lambda>i. (i, n_dofs (dof_handler p'), system_matrix p')) [0..<unat (n_time_steps params)]"
    by (simp add: p' start(1) same[unfolded p'])
  from facts(2) show
    "list_all (\<lambda>(n, k, tol, A, x0, b, x).
                 tol = double_literal env (1 / 10 ^ 6) * l2_norm env b \<and>
                 gmres_solve env k tol A x0 b (preconditioner p') = Some x)
       (solve_calls (journal p'))"
    by (simp add: p' same[unfolded p'])
  from facts(3) show "map (\<lambda>(n, t, f, u, b0, b). (n, vector_compress env b)) (rhs_calls (journal p')) =
         map (\<lambda>(n, k, tol, A, x0, b, x). (n, b)) (solve_calls (journal p'))"
    by (simp add: p')
qed

lemma cdr_program_matrix_calls:
  assumes "cdr_program env d params = Inr p'"
  shows "\<exists>A0 rest. journal p'
            = CreateSystemMatrix (time_step p') A0
                (create_system_matrix env (dof_handler p') (quad p') (convection_function p')
                   params (time_step p') (constraints p') A0) # rest \<and>
           matrix_calls rest = [] \<and>
           system_matrix p' = matrix_compress env
             (create_system_matrix env (dof_handler p') (quad p') (convection_function p')
                params (time_step p') (constraints p') A0)"
proof -
  from assms obtain p0 s' where ctor: "CDRProblem_ctor env d params = Inr p0"
    and loop: "time_loop env (initial_iteration (setup_matrices env (setup_geometry env p0))) 0 = Inr s'"
    and p': "p' = problem s'"
    by (rule cdr_program_Inr)
  let ?q = "setup_matrices env (setup_geometry env p0)"
  note start = setup_facts[OF ctor]
  have same: "same_setup ?q p'"
    using time_loop_same_setup[OF loop] by (simp add: p')
  then have eq: "dof_handler ?q = dof_handler p'" "quad ?q = quad p'"
    "convection_function ?q = convection_function p'" "constraints ?q = constraints p'"
    "time_step ?q = time_step p'" "system_matrix ?q = system_matrix p'"
    by (simp_all add: same_setup_def)
  from start(8) obtain A0 where A:
    "journal ?q = [CreateSystemMatrix (time_step p') A0
                     (create_system_matrix env (dof_handler p') (quad p') (convection_function p')
                        params (time_step p') (constraints p') A0)]"
    "system_matrix p' = matrix_compress env
       (create_system_matrix env (dof_handler p') (quad p') (convection_function p')
          params (time_step p') (constraints p') A0)"
    unfolding eq start(1) by blast
  from time_loop_matrix_calls(2)[OF loop] obtain rest where
    "journal p' = journal ?q @ rest" "matrix_calls rest = []"
    by (auto simp: p')
  with A show ?thesis by simp
qed

lemma cdr_program_vtu_files:
  assumes "cdr_program env d params = Inr p'"
  shows "map (\<lambda>(n, name). (unat n, Some name)) (vtu_files (journal p')) =
         map (\<lambda>i. (i, map_option (\<lambda>name. name @ ''.vtu'')
                         (solution_filename env (word_of_nat i) (mpi_this_process env))))
           (filter (\<lambda>i. i mod unat (save_interval params) = 0) [0..<unat (n_time_steps params)])"
proof -
  from assms obtain p0 s' where ctor: "CDRProblem_ctor env d params = Inr p0"
    and loop: "time_loop env (initial_iteration (setup_matrices env (setup_geometry env p0))) 0 = Inr s'"
    and p': "p' = problem s'"
    by (rule cdr_program_Inr)
  note start = setup_facts[OF ctor]
  from start(8) have
    "vtu_files (journal (problem (initial_iteration (setup_matrices env (setup_geometry env p0))))) = []"
    by auto
  from time_loop_vtu_files[OF loop this] show ?thesis
    by (simp add: p' start(1,6))
qed

lemma cdr_program_pvtu_files:
  assumes "cdr_program env d params = Inr p'"
  shows "map (\<lambda>(n, name, names). (unat n, Some name, map Some names)) (pvtu_files (journal p')) =
         (if mpi_this_process env = 0
          then map (\<lambda>i. (i, pvtu_filename env (word_of_nat i),
                          map (\<lambda>r. map_option (\<lambda>name. name @ ''.vtu'')
                                     (solution_filename env (word_of_nat i) r))
                            (map word_of_nat [0..<unat (mpi_n_processes env)])))
                 (filter (\<lambda>i. i mod unat (save_interval params) = 0)
                    [0..<unat (n_time_steps params)])
          else [])"
proof -
  from assms obtain p0 s' where ctor: "CDRProblem_ctor env d params = Inr p0"
    and loop: "time_loop env (initial_iteration (setup_matrices env (setup_geometry env p0))) 0 = Inr s'"
    and p': "p' = problem s'"
    by (rule cdr_program_Inr)
  note start = setup_facts[OF ctor]
  from start(8) have
    "pvtu_files (journal (problem (initial_iteration (setup_matrices env (setup_geometry env p0))))) = []"
    by auto
  from time_loop_pvtu_files[OF loop this] show ?thesis
    by (simp add: p' start(1,4,5))
qed

lemma cdr_program_total:
  assumes "always_converges env" "int_to_string_total env"
      and "save_interval params \<noteq> 0"
      and "\<not> isl (CDRProblem_ctor env d params)"
  shows "\<exists>p'. cdr_program env d params = Inr p'"
proof -
  from assms(4) obtain p0 where ctor: "CDRProblem_ctor env d params = Inr p0"
    by (cases "CDRProblem_ctor env d params") auto
  have "save_interval (parameters (problem
          (initial_iteration (setup_matrices env (setup_geometry env p0))))) \<noteq> 0"
    using assms(3) setup_facts(1)[OF ctor] by simp
  from time_loop_total[OF assms(1,2) this, of 0] obtain s' where
    "time_loop env (initial_iteration (setup_matrices env (setup_geometry env p0))) 0 = Inr s'"
    by blast
  then show ?thesis
    by (simp add: cdr_program_def run_def time_iterate_def ctor initial_iteration_def)
qed

section \<open>Counting the steps that are saved\<close>

lemma ceil_div_Suc:
  "(Suc n + m) div Suc m = (n + m) div Suc m + (if n mod Suc m = 0 then 1 else 0)"
proof -
  define q r where "q = n div Suc m" and "r = n mod Suc m"
  have n: "n = r + q * Suc m"
    unfolding q_def r_def by (rule mod_div_mult_eq[symmetric])
  have r: "r < Suc m"
    by (simp add: r_def)
  have a: "(n + m) div Suc m = q + (r + m) div Suc m"
  proof -
    have "n + m = (r + m) + q * Suc m" by (subst n) simp
    then have "(n + m) div Suc m = ((r + m) + q * Suc m) div Suc m" by (rule arg_cong)
    also have "\<dots> = q + (r + m) div Suc m" by (rule div_mult_self1) simp
    finally show ?thesis .
  qed
  have b: "(Suc n + m) div Suc m = q + (r + Suc m) div Suc m"
  proof -
    have "Suc n + m = (r + Suc m) + q * Suc m" by (subst n) simp
    then have "(Suc n + m) div Suc m = ((r + Suc m) + q * Suc m) div Suc m" by (rule arg_cong)
    also have "\<dots> = q + (r + Suc m) div Suc m" by (rule div_mult_self1) simp
    finally show ?thesis .
  qed
  have c: "(x + Suc m) div Suc m = 1" if "x < Suc m" for x
  proof -
    have "(x + Suc m) div Suc m = x div Suc m + 1" by (rule div_add_self2) simp
    moreover have "x div Suc m = 0" using that by (rule div_less)
    ultimately show ?thesis by simp
  qed
  have d: "(r + m) div Suc m = (if r = 0 then 0 else 1)"
  proof (cases "r = 0")
    case True
    then show ?thesis by simp
  next
    case False
    then obtain r' where r': "r = Suc r'" by (cases r) auto
    then have "r + m = r' + Suc m" "r' < Suc m" using r by simp_all
    then have "(r + m) div Suc m = 1" using c[of r'] by simp
    with False show ?thesis by simp
  qed
  show ?thesis unfolding a b c[OF r] d by (simp add: r_def)
qed

lemma length_filter_mod:
  fixes k :: nat
  assumes "0 < k"
  shows "length (filter (\<lambda>i. i mod k = 0) [0..<n]) = (n + k - 1) div k"
proof -
  obtain m where k: "k = Suc m" using assms by (cases k) auto
  have "length (filter (\<lambda>i. i mod Suc m = 0) [0..<n]) = (n + m) div Suc m"
  proof (induction n)
    case 0
    show ?case by simp
  next
    case (Suc n)
    show ?case unfolding ceil_div_Suc using Suc by simp
  qed
  then show ?thesis by (simp add: k)
qed

lemma ceiling_div_nat:
  fixes k n :: nat
  assumes "0 < k"
  shows "\<lceil>real n / real k\<rceil> = int ((n + k - 1) div k)"
proof -
  define d where "d = (n + k - 1) div k"
  define e where "e = (n + k - 1) mod k"
  have split: "d * k + e = n + k - 1"
    unfolding d_def e_def by (rule div_mult_mod_eq)
  have e: "e < k" unfolding e_def using assms by simp
  have "n \<le> d * k" using split e assms by linarith
  then have up: "real n \<le> real d * real k"
    by (metis of_nat_le_iff of_nat_mult)
  have "d * k < n + k" using split assms by linarith
  then have low: "real d * real k < real n + real k"
    by (metis of_nat_less_iff of_nat_mult of_nat_add)
  have "\<lceil>real n / real k\<rceil> = int d"
  proof (rule ceiling_unique)
    show "real_of_int (int d) - 1 < real n / real k"
      using low assms by (simp add: field_simps)
    show "real n / real k \<le> real_of_int (int d)"
      using up assms by (simp add: field_simps)
  qed
  then show ?thesis by (simp add: d_def)
qed

section \<open>Which cells and faces carry the manifold id\<close>

lemma length_set_face_manifold_id [simp]:
  "length (set_face_manifold_id m a faces) = length faces"
  by (simp add: set_face_manifold_id_def)








section \<open>The example runs\<close>

lemma example_env_simps:
  "assertions_enabled example_env = True"
  "mpi_n_processes example_env = 1"
  "mpi_this_process example_env = 0"
  "split_string_list example_env s c = [s]"
  "int_to_string example_env = padded_decimal"
  "muparser_accepts example_env names consts e
     = (e \<in> set names \<or> e \<in> set (map ((#) (CHR ''-'')) names) \<or> e = ''0'')"
  "hyper_shell example_env center r_in r_out = ring_mesh 10"
  "refine_global example_env level m = m"
  "gmres_solve example_env k tol A x b P = Some (\<lambda>i. map_option (\<lambda>r. r / A) (b i))"
  "double_of_unsigned example_env count = real (unat count)"
  "double_literal example_env number = number"
  "vector_compress example_env vec = vec"
  "l2_norm example_env vec =
     sqrt (fold (\<lambda>i total. total + (case vec i of None \<Rightarrow> 0 | Some r \<Rightarrow> r * r)) [0..<25] 0)"
  "create_system_rhs example_env dh q convection f params u cm rhs =
     (\<lambda>i. case rhs i of
             None \<Rightarrow> None
           | Some r \<Rightarrow> Some (r + (fp_time f + (case u i of None \<Rightarrow> 0 | Some v \<Rightarrow> v))))"
  by (simp_all add: example_env_def sample_env_def)

lemma example_parameters_simps:
  "convection_field example_parameters = ''-y,x''"
  "forcing example_parameters = ''0''"
  "start_time example_parameters = 0"
  "stop_time example_parameters = 2"
  "n_time_steps example_parameters = 5"
  "save_interval example_parameters = 2"
  "refinement_level example_parameters = 0"
  by (simp_all add: example_parameters_def main_parameters_def example_env_simps)

lemma example_convection_accepted:
  "convection_accepted example_env ''-y,x''"
  "convection_accepted example_env ''x''"
  by (simp_all add: convection_accepted_def convection_field_clauses_eq example_env_simps)

lemma example_forcing_accepted: "forcing_accepted example_env ''0''"
  by (simp add: forcing_accepted_def example_env_simps)

lemma example_env_total:
  "always_converges example_env" "int_to_string_total example_env"
  by (simp_all add: always_converges_def int_to_string_total_def example_env_simps padded_decimal_def
        Let_def)

lemma example_run:
  "\<exists>p'. cdr_program example_env 2 example_parameters = Inr p'"
  using example_convection_accepted(1) example_forcing_accepted
  by (intro cdr_program_total example_env_total)
     (simp_all add: CDRProblem_ctor_isl_2 example_parameters_simps)

lemma upt_5: "[0..<5] = [0, 1, 2, 3, 4]"
  by (simp add: upt_rec)

lemma example_n_dofs:
  assumes "cdr_program example_env 2 example_parameters = Inr p'"
  shows "n_dofs (dof_handler p') = 25"
proof -
  from assms obtain p0 where "same_setup (setup_matrices example_env (setup_geometry example_env p0)) p'"
    by (rule cdr_program_same_setup)
  then have "dof_handler p' = dof_handler (setup_geometry example_env p0)"
    by (simp add: same_setup_def setup_matrices_simps)
  then show ?thesis
    by (simp add: setup_geometry_def Let_def example_env_def sample_env_def)
qed

lemma decimal_digits: "decimal 0 = ''0''" "decimal 2 = ''2''" "decimal 4 = ''4''"
  by (simp_all add: decimal.simps)

lemma replicate_3: "replicate 3 x = [x, x, x]"
  by (simp add: numeral_3_eq_3)

lemma four_is_valid: "(4::unsigned_int) \<noteq> invalid_unsigned_int"
  by (simp add: invalid_unsigned_int_def)

lemma padded_rank_0: "padded_decimal 0 4 = Some ''0000''"
proof -
  have "unat (4::unsigned_int) - length (decimal 0) = 3" by (simp add: decimal_digits)
  then show ?thesis
    using four_is_valid by (simp add: padded_decimal_def Let_def decimal_digits replicate_3)
qed

lemma unpadded_steps:
  "padded_decimal 0 invalid_unsigned_int = Some ''0''"
  "padded_decimal 2 invalid_unsigned_int = Some ''2''"
  "padded_decimal 4 invalid_unsigned_int = Some ''4''"
  by (simp_all add: padded_decimal_def Let_def decimal_digits)

lemma example_file_names:
  "solution_filename example_env 0 0 = Some ''solution-0.0000''"
  "solution_filename example_env 2 0 = Some ''solution-2.0000''"
  "solution_filename example_env 4 0 = Some ''solution-4.0000''"
  "pvtu_filename example_env 0 = Some ''solution-0.pvtu''"
  "pvtu_filename example_env 2 = Some ''solution-2.pvtu''"
  "pvtu_filename example_env 4 = Some ''solution-4.pvtu''"
  by (simp_all add: solution_filename_def pvtu_filename_def example_env_simps(5)
        padded_rank_0 unpadded_steps)


lemma upt_2: "[0..<2] = [0, 1]"
  by (simp add: upt_rec)

lemma example_dofs:
  assumes "cdr_program example_env 2 example_parameters = Inr p'"
  shows "locally_relevant_dofs p' = {..<25}" "locally_owned_dofs p' = {..<25}"
proof -
  from assms obtain p0 where "same_setup (setup_matrices example_env (setup_geometry example_env p0)) p'"
    by (rule cdr_program_same_setup)
  then have "locally_relevant_dofs p' = locally_relevant_dofs (setup_geometry example_env p0)"
    "locally_owned_dofs p' = locally_owned_dofs (setup_geometry example_env p0)"
    by (simp_all add: same_setup_def setup_matrices_simps)
  then show "locally_relevant_dofs p' = {..<25}" "locally_owned_dofs p' = {..<25}"
    by (simp_all add: setup_geometry_def Let_def example_env_def sample_env_def)
qed

lemma example_time_step:
  assumes "cdr_program example_env 2 example_parameters = Inr p'"
  shows "time_step p' = 2 / 5"
  using cdr_program_rhs_calls(3)[OF assms]
  by (simp add: example_parameters_simps example_env_simps)

lemma example_first_rhs:
  assumes "cdr_program example_env 2 example_parameters = Inr p'"
  shows "\<exists>t f b rest. rhs_calls (journal p')
           = (0, t, f, Vector_reinit {..<25}, Vector_reinit {..<25}, b) # rest \<and>
         fp_time f = 2 / 5"
proof -
  have "0 < n_time_steps example_parameters" by (simp add: example_parameters_simps)
  from cdr_program_first_rhs[OF assms this] obtain t f b rest where
    first: "rhs_calls (journal p') = (0, t, f, Vector_reinit {..<25}, Vector_reinit {..<25}, b) # rest"
    by (auto simp: example_dofs[OF assms])
  from cdr_program_rhs_calls(1)[OF assms] have "fp_time f = 2 / 5"
    by (simp add: first example_parameters_simps upt_5 time_after_real example_time_step[OF assms])
  with first show ?thesis by blast
qed

lemma example_initial_matrix:
  assumes "cdr_program example_env 2 example_parameters = Inr p'"
      and "journal p' = CreateSystemMatrix dt A0 A # rest"
  shows "A0 = 0"
proof -
  from assms(1) obtain p0 s' where ctor: "CDRProblem_ctor example_env 2 example_parameters = Inr p0"
    and loop: "time_loop example_env
                 (initial_iteration (setup_matrices example_env (setup_geometry example_env p0))) 0 = Inr s'"
    and p': "p' = problem s'"
    by (rule cdr_program_Inr)
  from time_loop_matrix_calls(2)[OF loop] obtain more where
    "journal p' = journal (setup_matrices example_env (setup_geometry example_env p0)) @ more"
    by (auto simp: p')
  moreover have "journal (setup_matrices example_env (setup_geometry example_env p0))
      = [CreateSystemMatrix (time_step (setup_geometry example_env p0)) 0
           (create_system_matrix example_env (dof_handler (setup_geometry example_env p0))
              (quad (setup_geometry example_env p0)) (convection_function (setup_geometry example_env p0))
              (parameters (setup_geometry example_env p0)) (time_step (setup_geometry example_env p0))
              (constraints (setup_matrices example_env (setup_geometry example_env p0))) 0)]"
    using CDRProblem_ctor_Inr(3)[OF ctor]
    by (simp add: setup_matrices_def Let_def setup_geometry_simps example_env_def sample_env_def)
  ultimately show ?thesis using assms(2) by simp
qed

lemma fold_add_constant:
  fixes c :: real
  assumes "\<And>i. i < n \<Longrightarrow> g i = c"
  shows "fold (\<lambda>i total. total + g i) [0..<n] a = a + real n * c"
  using assms by (induction n) (simp_all add: algebra_simps)

lemma example_l2_norm:
  "l2_norm example_env (\<lambda>i. if i < 25 then Some (2 / 5) else None) = 2"
proof -
  let ?v = "\<lambda>i::nat. if i < 25 then Some (2 / 5 :: real) else None"
  have "fold (\<lambda>i total. total + (case ?v i of None \<Rightarrow> 0 | Some r \<Rightarrow> r * r)) [0..<25] 0
          = 0 + real 25 * (4 / 25)"
    by (rule fold_add_constant) simp
  then show ?thesis
    by (simp add: example_env_simps(13))
qed

subsection \<open>The run in rounding arithmetic\<close>

lemma sample_env_total:
  "always_converges (sample_env of_unsigned literal square_root)"
  "int_to_string_total (sample_env of_unsigned literal square_root)"
  "convection_accepted (sample_env of_unsigned literal square_root) ''-y,x''"
  "forcing_accepted (sample_env of_unsigned literal square_root) ''0''"
  by (simp_all add: always_converges_def int_to_string_total_def padded_decimal_def Let_def
        convection_accepted_def convection_field_clauses_eq forcing_accepted_def sample_env_def)

lemma large_start_parameters_simps:
  "convection_field large_start_parameters = ''-y,x''"
  "forcing large_start_parameters = ''0''"
  "start_time large_start_parameters = Binary64 (10 ^ 16)"
  "stop_time large_start_parameters = Binary64 (10 ^ 16 + 2)"
  "n_time_steps large_start_parameters = 2"
  "save_interval large_start_parameters = 1"
  by (simp_all add: large_start_parameters_def main_parameters_def)

lemma large_start_run:
  "\<exists>p'. cdr_program rounding_env 2 large_start_parameters = Inr p'"
proof (rule cdr_program_total)
  show "always_converges rounding_env" "int_to_string_total rounding_env"
    unfolding rounding_env_def by (rule sample_env_total)+
  show "save_interval large_start_parameters \<noteq> 0"
    by (simp add: large_start_parameters_simps)
  have "convection_accepted rounding_env ''-y,x''" "forcing_accepted rounding_env ''0''"
    unfolding rounding_env_def by (rule sample_env_total)+
  then show "\<not> isl (CDRProblem_ctor rounding_env 2 large_start_parameters)"
    by (simp add: CDRProblem_ctor_isl_2 large_start_parameters_simps)
qed

lemma floor_log2_eq:
  assumes "2 ^ e \<le> x" and "x < 2 ^ Suc e"
  shows "\<lfloor>log 2 x\<rfloor> = int e"
proof -
  have "(0::real) < 2 ^ e" by simp
  with assms(1) have pos: "0 < x" by linarith
  have "2 powr real_of_int (int e) \<le> x \<and> x < 2 powr (real_of_int (int e) + 1)"
    using assms by (simp add: powr_realpow powr_add)
  with pos show ?thesis
    by (simp add: floor_log_eq_powr_iff)
qed

lemma round_binary64_values:
  "round_binary64 1 = 1"
  "round_binary64 2 = 2"
  "round_binary64 10000000000000001 = 10000000000000000"
proof -
  show "round_binary64 1 = 1" "round_binary64 2 = 2"
    by (simp_all add: round_binary64_def round_half_even_def Let_def powr_minus powr_realpow)
  have "\<lfloor>log 2 (10000000000000001 :: real)\<rfloor> = int 53"
    by (rule floor_log2_eq) simp_all
  then have e: "\<lfloor>log 2 \<bar>10000000000000001 :: real\<bar>\<rfloor> - 52 = 1" by simp
  have half: "round_half_even (10000000000000001 / 2) = 5000000000000000"
    by (simp add: round_half_even_def Let_def)
  show "round_binary64 10000000000000001 = 10000000000000000"
    unfolding round_binary64_def Let_def e
    by (simp add: half)
qed

lemma large_start_step:
  "(stop_time large_start_parameters - start_time large_start_parameters)
     / double_of_unsigned rounding_env (n_time_steps large_start_parameters) = Binary64 1"
  by (simp add: large_start_parameters_simps rounding_env_def sample_env_def
        minus_binary64_def divide_binary64_def round_binary64_values)

lemma large_start_absorbed:
  "Binary64 10000000000000000 + Binary64 1 = Binary64 10000000000000000"
  by (simp add: plus_binary64_def round_binary64_values)

section \<open>The claims\<close>

text \<open>
  C1 (amended). The constructor never counts the clauses of \<open>convection_field\<close>. Whatever
  the string, it hands the parser exactly two clauses, and when the string has a comma
  they are the text before the first comma and the text after it. For \<open>dim = 2\<close>
  construction aborts exactly when the parser rejects one of the two clauses it is
  handed or the forcing expression; a string is never refused for the number of its
  clauses as such.
\<close>

theorem C1_two_clauses_always:
  assumes "length (convection_field params) < 2 ^ 64"
  shows "case convection_field_clauses (convection_field params) of
           Inl e \<Rightarrow> False
         | Inr clauses \<Rightarrow>
             length clauses = 2 \<and>
             (CHR '','' \<in> set (convection_field params) \<longrightarrow>
                clauses = [takeWhile (\<lambda>c. c \<noteq> CHR '','') (convection_field params),
                           tl (dropWhile (\<lambda>c. c \<noteq> CHR '','') (convection_field params))]) \<and>
             (isl (CDRProblem_ctor env 2 params) \<longleftrightarrow>
                \<not> (list_all (muparser_accepts env [''x'', ''y''] [''pi'']) clauses \<and>
                   forcing_accepted env (forcing params)))"
  using convection_field_clauses_eq[OF assms]
  by (simp add: CDRProblem_ctor_isl_2 convection_accepted_def)

theorem C1_two_clauses_always_witness:
  "convection_field_clauses ''-y,x'' = Inr [''-y'', ''x''] \<and>
   \<not> isl (CDRProblem_ctor example_env 2 example_parameters) \<and>
   isl (CDRProblem_ctor example_env 2 (example_parameters\<lparr>convection_field := ''-y,2''\<rparr>))"
proof -
  have written: "convection_field_clauses ''-y,x'' = Inr [''-y'', ''x'']"
    "convection_field_clauses ''-y,2'' = Inr [''-y'', ''2'']"
    by (simp_all add: convection_field_clauses_eq)
  from C1_two_clauses_always[of example_parameters example_env]
  have accepted: "\<not> isl (CDRProblem_ctor example_env 2 example_parameters)"
    using example_forcing_accepted
    by (simp add: example_parameters_simps written example_env_simps(6))
  from C1_two_clauses_always[of "example_parameters\<lparr>convection_field := ''-y,2''\<rparr>" example_env]
  have "isl (CDRProblem_ctor example_env 2 (example_parameters\<lparr>convection_field := ''-y,2''\<rparr>))"
    by (simp add: written example_env_simps(6))
  with written(1) accepted show ?thesis by simp
qed

text \<open>
  C1 as stated fails: \<open>x\<close> has no comma, and construction succeeds. Both
  \<^verbatim>\<open>substr\<close> calls return the whole string then, so the parser is handed \<open>x\<close> twice.
\<close>

theorem C1_counterexample:
  "CHR '','' \<notin> set ''x'' \<and>
   convection_field_clauses ''x'' = Inr [''x'', ''x''] \<and>
   \<not> isl (CDRProblem_ctor example_env 2 (example_parameters\<lparr>convection_field := ''x''\<rparr>))"
  using example_convection_accepted(2) example_forcing_accepted
  by (simp add: CDRProblem_ctor_isl_2 example_parameters_simps convection_field_clauses_eq)




text \<open>
  C3. In a run that completes, with \<open>save_interval = k\<close> and \<open>n_time_steps = n\<close> both
  positive, the iterations that write a per-process file are exactly the \<open>i < n\<close> with
  \<open>i mod k = 0\<close>, in order, each once; there are \<open>\<lceil>n / k\<rceil>\<close> of them; and process 0
  writes its record file in exactly the same iterations, the other processes in none.
\<close>

theorem C3_checkpoint_schedule:
  assumes "cdr_program env dimension params = Inr p'"
      and "0 < save_interval params"
      and "0 < n_time_steps params"
  shows "map (\<lambda>(n, name). unat n) (vtu_files (journal p')) =
           filter (\<lambda>i. i mod unat (save_interval params) = 0) [0..<unat (n_time_steps params)] \<and>
         int (length (vtu_files (journal p'))) =
           \<lceil>real (unat (n_time_steps params)) / real (unat (save_interval params))\<rceil> \<and>
         map (\<lambda>(n, name, names). unat n) (pvtu_files (journal p')) =
           (if mpi_this_process env = 0
            then filter (\<lambda>i. i mod unat (save_interval params) = 0) [0..<unat (n_time_steps params)]
            else [])"
proof -
  let ?saved = "filter (\<lambda>i. i mod unat (save_interval params) = 0) [0..<unat (n_time_steps params)]"
  have k: "0 < unat (save_interval params)"
    using assms(2) by (simp add: word_less_nat_alt)
  have "map (\<lambda>x. fst x) (map (\<lambda>(n, name). (unat n, Some name)) (vtu_files (journal p'))) = ?saved"
    unfolding cdr_program_vtu_files[OF assms(1)] by (simp add: comp_def)
  then have vtu: "map (\<lambda>(n, name). unat n) (vtu_files (journal p')) = ?saved"
    by (simp add: comp_def case_prod_unfold)
  have "length (map (\<lambda>(n, name). unat n) (vtu_files (journal p'))) = length ?saved"
    by (simp only: vtu)
  then have "length (vtu_files (journal p'))
      = (unat (n_time_steps params) + unat (save_interval params) - 1) div unat (save_interval params)"
    by (simp add: length_filter_mod[OF k])
  then have count: "int (length (vtu_files (journal p'))) =
      \<lceil>real (unat (n_time_steps params)) / real (unat (save_interval params))\<rceil>"
    by (simp only: ceiling_div_nat[OF k])
  have "map (\<lambda>x. fst x)
          (map (\<lambda>(n, name, names). (unat n, Some name, map Some names)) (pvtu_files (journal p')))
        = (if mpi_this_process env = 0 then ?saved else [])"
    unfolding cdr_program_pvtu_files[OF assms(1)] by (simp add: comp_def)
  then have pvtu: "map (\<lambda>(n, name, names). unat n) (pvtu_files (journal p'))
        = (if mpi_this_process env = 0 then ?saved else [])"
    by (simp add: comp_def case_prod_unfold)
  from vtu count pvtu show ?thesis by blast
qed

theorem C3_checkpoint_schedule_witness:
  "\<not> isl (cdr_program example_env 2 example_parameters) \<and>
   map (\<lambda>(n, name). unat n)
     (vtu_files (journal (projr (cdr_program example_env 2 example_parameters)))) = [0, 2, 4] \<and>
   length (vtu_files (journal (projr (cdr_program example_env 2 example_parameters)))) = 3 \<and>
   map (\<lambda>(n, name, names). unat n)
     (pvtu_files (journal (projr (cdr_program example_env 2 example_parameters)))) = [0, 2, 4]"
proof -
  obtain p' where run: "cdr_program example_env 2 example_parameters = Inr p'"
    using example_run by blast
  have "0 < save_interval example_parameters" "0 < n_time_steps example_parameters"
    by (simp_all add: example_parameters_simps)
  from C3_checkpoint_schedule[OF run this] show ?thesis
    by (simp add: run example_parameters_simps example_env_simps upt_5)
qed

text \<open>
  C4. \<^verbatim>\<open>create_system_matrix\<close> is called once, in \<^verbatim>\<open>setup_matrices\<close>, before anything
  the loop does: the journal starts with its entry and holds no other. The matrix the
  entry says the call left is what \<open>create_system_matrix\<close> returns for the members of
  the object (which the loop never assigns) and the step size. Compressed, it is the
  matrix the object holds at the end and the matrix of every \<^verbatim>\<open>solver.solve\<close> of the run,
  one in each iteration; and the vector each solve is recorded to have returned is what
  \<open>gmres_solve\<close> returns when it is called with that matrix.
\<close>

theorem C4_matrix_assembled_once:
  assumes "cdr_program env dimension params = Inr p'"
  shows "length (matrix_calls (journal p')) = 1 \<and>
         (case journal p' of
            CreateSystemMatrix dt A0 A # rest \<Rightarrow>
              dt = time_step p' \<and>
              A = create_system_matrix env (dof_handler p') (quad p') (convection_function p')
                    params dt (constraints p') A0 \<and>
              matrix_calls rest = [] \<and>
              system_matrix p' = matrix_compress env A \<and>
              map (\<lambda>(n, k, tol, M, x0, b, x). (unat n, M)) (solve_calls rest) =
                map (\<lambda>i. (i, matrix_compress env A)) [0..<unat (n_time_steps params)] \<and>
              list_all (\<lambda>(n, k, tol, M, x0, b, x).
                          gmres_solve env k tol M x0 b (preconditioner p') = Some x)
                (solve_calls rest)
          | _ \<Rightarrow> False)"
proof -
  from cdr_program_matrix_calls[OF assms] obtain A0 rest where
    j: "journal p' = CreateSystemMatrix (time_step p') A0
          (create_system_matrix env (dof_handler p') (quad p') (convection_function p')
             params (time_step p') (constraints p') A0) # rest"
    and rest: "matrix_calls rest = []"
    and A: "system_matrix p' = matrix_compress env
          (create_system_matrix env (dof_handler p') (quad p') (convection_function p')
             params (time_step p') (constraints p') A0)"
    by blast
  note calls = cdr_program_solve_calls[OF assms]
  have "map (\<lambda>x. (fst x, snd (snd x)))
          (map (\<lambda>(n, k, tol, A, x0, b, x). (unat n, k, A)) (solve_calls (journal p')))
        = map (\<lambda>i. (i, system_matrix p')) [0..<unat (n_time_steps params)]"
    unfolding calls(1) by (simp add: comp_def)
  then have m: "map (\<lambda>(n, k, tol, M, x0, b, x). (unat n, M)) (solve_calls (journal p'))
        = map (\<lambda>i. (i, system_matrix p')) [0..<unat (n_time_steps params)]"
    by (simp add: comp_def case_prod_unfold)
  have "list_all (\<lambda>(n, k, tol, M, x0, b, x).
                    gmres_solve env k tol M x0 b (preconditioner p') = Some x)
          (solve_calls (journal p'))"
    using calls(2) by (auto simp: list_all_iff)
  with j rest A m show ?thesis by simp
qed

theorem C4_matrix_assembled_once_witness:
  "\<not> isl (cdr_program example_env 2 example_parameters) \<and>
   length (matrix_calls (journal (projr (cdr_program example_env 2 example_parameters)))) = 1 \<and>
   system_matrix (projr (cdr_program example_env 2 example_parameters)) = 7 / 5 \<and>
   map (\<lambda>(n, k, tol, M, x0, b, x). (unat n, M))
     (solve_calls (tl (journal (projr (cdr_program example_env 2 example_parameters)))))
     = [(0, 7 / 5), (1, 7 / 5), (2, 7 / 5), (3, 7 / 5), (4, 7 / 5)]"
proof -
  obtain p' where run: "cdr_program example_env 2 example_parameters = Inr p'"
    using example_run by blast
  note C4 = C4_matrix_assembled_once[OF run]
  then obtain dt A0 A rest where j: "journal p' = CreateSystemMatrix dt A0 A # rest"
    by (auto split: list.splits call.splits)
  from cdr_program_matrix_calls[OF run] j have A0: "A0 = 0"
    using example_initial_matrix[OF run] by simp
  from C4 have dt: "dt = 2 / 5"
    by (simp add: j example_time_step[OF run])
  from C4 have "A = create_system_matrix example_env (dof_handler p') (quad p')
                      (convection_function p') example_parameters dt (constraints p') A0"
    by (simp add: j)
  then have A: "A = 7 / 5"
    by (simp add: A0 dt example_env_def sample_env_def)
  from C4 have m: "system_matrix p' = 7 / 5"
    by (simp add: j A example_env_def sample_env_def)
  from C4 have "map (\<lambda>(n, k, tol, M, x0, b, x). (unat n, M)) (solve_calls rest) =
                  map (\<lambda>i. (i, matrix_compress example_env A)) [0..<5]"
    by (simp add: j example_parameters_simps)
  then have calls: "map (\<lambda>(n, k, tol, M, x0, b, x). (unat n, M)) (solve_calls rest) =
                  [(0, 7 / 5), (1, 7 / 5), (2, 7 / 5), (3, 7 / 5), (4, 7 / 5)]"
    by (simp add: upt_5 A example_env_def sample_env_def)
  from C4 m calls show ?thesis by (simp add: run j)
qed

text \<open>
  C5. Every \<^verbatim>\<open>solver.solve\<close> of a run, one in each iteration, is under a
  \<^verbatim>\<open>SolverControl\<close> whose iteration limit is \<^verbatim>\<open>dof_handler.n_dofs()\<close> and whose tolerance is
  the product of the literal \<open>1e-6\<close> and the l2 norm of the right-hand side it is given;
  the vector it is recorded to have returned is what \<open>gmres_solve\<close> returns for this limit,
  this tolerance and this right-hand side. The right-hand side is what
  \<^verbatim>\<open>create_system_rhs\<close> left in the same iteration, compressed, and that in turn is what
  \<open>create_system_rhs\<close> returns for the arguments of its entry.
\<close>

theorem C5_solver_control_per_step:
  assumes "cdr_program env dimension params = Inr p'"
  shows "map (\<lambda>(n, k, tol, A, x0, b, x). (unat n, k)) (solve_calls (journal p')) =
           map (\<lambda>i. (i, n_dofs (dof_handler p'))) [0..<unat (n_time_steps params)] \<and>
         list_all (\<lambda>(n, k, tol, A, x0, b, x).
                     tol = double_literal env (1 / 10 ^ 6) * l2_norm env b \<and>
                     gmres_solve env k tol A x0 b (preconditioner p') = Some x)
           (solve_calls (journal p')) \<and>
         map (\<lambda>(n, k, tol, A, x0, b, x). (n, b)) (solve_calls (journal p')) =
           map (\<lambda>(n, t, f, u, b0, b). (n, vector_compress env b)) (rhs_calls (journal p')) \<and>
         list_all (\<lambda>(n, t, f, u, b0, b).
                     b = create_system_rhs env (dof_handler p') (quad p') (convection_function p')
                           f params u (constraints p') b0)
           (rhs_calls (journal p'))"
proof -
  note calls = cdr_program_solve_calls[OF assms]
  have "map (\<lambda>x. (fst x, fst (snd x)))
          (map (\<lambda>(n, k, tol, A, x0, b, x). (unat n, k, A)) (solve_calls (journal p')))
        = map (\<lambda>i. (i, n_dofs (dof_handler p'))) [0..<unat (n_time_steps params)]"
    unfolding calls(1) by (simp add: comp_def)
  then have "map (\<lambda>(n, k, tol, A, x0, b, x). (unat n, k)) (solve_calls (journal p')) =
           map (\<lambda>i. (i, n_dofs (dof_handler p'))) [0..<unat (n_time_steps params)]"
    by (simp add: comp_def case_prod_unfold)
  with calls(2,3) cdr_program_rhs_calls(2)[OF assms] show ?thesis by simp
qed

theorem C5_solver_control_per_step_witness:
  "\<not> isl (cdr_program example_env 2 example_parameters) \<and>
   map (\<lambda>(n, k, tol, A, x0, b, x). (unat n, k))
     (solve_calls (journal (projr (cdr_program example_env 2 example_parameters))))
     = [(0, 25), (1, 25), (2, 25), (3, 25), (4, 25)] \<and>
   (case solve_calls (journal (projr (cdr_program example_env 2 example_parameters))) of
      [] \<Rightarrow> False
    | (n, k, tol, A, x0, b, x) # rest \<Rightarrow>
        b = (\<lambda>i. if i < 25 then Some (2 / 5) else None) \<and>
        l2_norm example_env b = 2 \<and> tol = 2 / 10 ^ 6)"
proof -
  obtain p' where run: "cdr_program example_env 2 example_parameters = Inr p'"
    using example_run by blast
  note C5 = C5_solver_control_per_step[OF run]
  from example_first_rhs[OF run] obtain t f b0 rest where
    first: "rhs_calls (journal p') = (0, t, f, Vector_reinit {..<25}, Vector_reinit {..<25}, b0) # rest"
    and f: "fp_time f = 2 / 5"
    by blast
  from C5 have "b0 = create_system_rhs example_env (dof_handler p') (quad p')
                       (convection_function p') f example_parameters (Vector_reinit {..<25})
                       (constraints p') (Vector_reinit {..<25})"
    by (simp add: first)
  then have b0: "b0 = (\<lambda>i. if i < 25 then Some (2 / 5) else None)"
    by (auto simp: example_env_simps f Vector_reinit_def)
  from C5 have "map (\<lambda>(n, k, tol, A, x0, b, x). (n, b)) (solve_calls (journal p'))
                  = (0, b0) # map (\<lambda>(n, t, f, u, b0, b). (n, vector_compress example_env b)) rest"
    by (simp add: first example_env_simps)
  then obtain k tol A x0 x more where
    solve: "solve_calls (journal p') = (0, k, tol, A, x0, b0, x) # more"
    by (cases "solve_calls (journal p')") auto
  from C5 have tol: "tol = l2_norm example_env b0 / 10 ^ 6"
    by (simp add: solve example_env_simps(11))
  have norm: "l2_norm example_env b0 = 2"
    unfolding b0 by (rule example_l2_norm)
  from C5 have "map (\<lambda>(n, k, tol, A, x0, b, x). (unat n, k)) (solve_calls (journal p'))
      = [(0, 25), (1, 25), (2, 25), (3, 25), (4, 25)]"
    by (simp add: example_parameters_simps upt_5 example_n_dofs[OF run])
  with b0 norm tol show ?thesis
    by (simp add: run solve)
qed

text \<open>
  C6. The step size is fixed by the constructor as
  \<open>(stop_time - start_time) / n_time_steps\<close> and is the same when the run ends; a run
  that completes has gone through exactly the iterations \<open>0, 1, \<dots>, n_time_steps - 1\<close>,
  once each and in this order, with one assembly and one solve in each, and the
  simulated time has advanced by the same step in each.
\<close>

theorem C6_fixed_step_every_iteration_once:
  assumes "cdr_program env dimension params = Inr p'"
      and "0 < n_time_steps params"
  shows "(case CDRProblem_ctor env dimension params of
            Inl e \<Rightarrow> False
          | Inr p0 \<Rightarrow>
              time_step p0 = (stop_time params - start_time params)
                               / double_of_unsigned env (n_time_steps params) \<and>
              time_step p' = time_step p0) \<and>
         map (\<lambda>(n, t, f, u, b0, b). unat n) (rhs_calls (journal p')) = [0..<unat (n_time_steps params)] \<and>
         map (\<lambda>(n, k, tol, A, x0, b, x). unat n) (solve_calls (journal p')) = [0..<unat (n_time_steps params)] \<and>
         map (\<lambda>(n, t, f, u, b0, b). t) (rhs_calls (journal p')) =
           map (\<lambda>i. time_after (start_time params) (time_step p') (Suc i))
             [0..<unat (n_time_steps params)]"
proof -
  from assms(1) obtain p0 where ctor: "CDRProblem_ctor env dimension params = Inr p0"
    and same: "same_setup (setup_matrices env (setup_geometry env p0)) p'"
    by (rule cdr_program_same_setup)
  have dt: "time_step p' = time_step p0"
    using same by (simp add: same_setup_def setup_matrices_simps setup_geometry_simps)
  have "map (\<lambda>x. fst x) (map (\<lambda>(n, t, f, u, b0, b). (unat n, t, fp_time f)) (rhs_calls (journal p')))
          = [0..<unat (n_time_steps params)]"
    unfolding cdr_program_rhs_calls(1)[OF assms(1)] by (simp add: comp_def)
  then have rhs: "map (\<lambda>(n, t, f, u, b0, b). unat n) (rhs_calls (journal p')) = [0..<unat (n_time_steps params)]"
    by (simp add: comp_def case_prod_unfold)
  have "map (\<lambda>x. fst x) (map (\<lambda>(n, k, tol, A, x0, b, x). (unat n, k, A)) (solve_calls (journal p')))
          = [0..<unat (n_time_steps params)]"
    unfolding cdr_program_solve_calls(1)[OF assms(1)] by (simp add: comp_def)
  then have solve: "map (\<lambda>(n, k, tol, A, x0, b, x). unat n) (solve_calls (journal p')) = [0..<unat (n_time_steps params)]"
    by (simp add: comp_def case_prod_unfold)
  have "map (\<lambda>x. fst (snd x)) (map (\<lambda>(n, t, f, u, b0, b). (unat n, t, fp_time f)) (rhs_calls (journal p')))
          = map (\<lambda>i. time_after (start_time params) (time_step p') (Suc i))
             [0..<unat (n_time_steps params)]"
    unfolding cdr_program_rhs_calls(1)[OF assms(1)] by (simp add: comp_def)
  then have times: "map (\<lambda>(n, t, f, u, b0, b). t) (rhs_calls (journal p')) =
           map (\<lambda>i. time_after (start_time params) (time_step p') (Suc i))
             [0..<unat (n_time_steps params)]"
    by (simp add: comp_def case_prod_unfold)
  show ?thesis
    using CDRProblem_ctor_Inr(2)[OF ctor] dt rhs solve times by (simp add: ctor)
qed

theorem C6_fixed_step_every_iteration_once_witness:
  "\<not> isl (cdr_program example_env 2 example_parameters) \<and>
   time_step (projr (cdr_program example_env 2 example_parameters)) = 2 / 5 \<and>
   map (\<lambda>(n, t, f, u, b0, b). unat n)
     (rhs_calls (journal (projr (cdr_program example_env 2 example_parameters)))) = [0, 1, 2, 3, 4] \<and>
   map (\<lambda>(n, k, tol, A, x0, b, x). unat n)
     (solve_calls (journal (projr (cdr_program example_env 2 example_parameters)))) = [0, 1, 2, 3, 4] \<and>
   map (\<lambda>(n, t, f, u, b0, b). t)
     (rhs_calls (journal (projr (cdr_program example_env 2 example_parameters))))
     = [2 / 5, 4 / 5, 6 / 5, 8 / 5, 2]"
proof -
  obtain p' where run: "cdr_program example_env 2 example_parameters = Inr p'"
    using example_run by blast
  have "0 < n_time_steps example_parameters" by (simp add: example_parameters_simps)
  from C6_fixed_step_every_iteration_once[OF run this] show ?thesis
    by (auto simp: run example_parameters_simps example_env_simps upt_5 time_after_real
             split: sum.splits)
qed

text \<open>
  C7 (amended). In iteration \<open>n\<close> the simulated time and the time of the forcing function
  have each been advanced by one addition of \<open>dt\<close> before \<^verbatim>\<open>create_system_rhs\<close> is called:
  both are the result of \<open>n + 1\<close> successive additions of \<open>dt\<close> to \<open>start_time\<close>, where \<open>dt\<close>
  is the step size \<open>(stop_time - start_time) / n_time_steps\<close> as the arithmetic computes it,
  and what the entry says the call left is what \<open>create_system_rhs\<close> returns for the
  forcing function at this time. In exact arithmetic this time is
  \<open>start_time + (n + 1) * dt\<close>. In floating-point arithmetic each addition rounds, and
  when \<open>start_time + dt\<close> rounds to \<open>start_time\<close> every assembly is handed the forcing
  function at \<open>start_time\<close>.
\<close>

theorem C7_forcing_time_advanced_before_assembly:
  assumes "cdr_program env dimension params = Inr p'"
  shows "map (\<lambda>(n, t, f, u, b0, b). (unat n, t, fp_time f)) (rhs_calls (journal p')) =
           map (\<lambda>i. (i, time_after (start_time params) (time_step p') (Suc i),
                        time_after (start_time params) (time_step p') (Suc i)))
             [0..<unat (n_time_steps params)] \<and>
         time_step p' = (stop_time params - start_time params)
                          / double_of_unsigned env (n_time_steps params) \<and>
         list_all (\<lambda>(n, t, f, u, b0, b).
                     b = create_system_rhs env (dof_handler p') (quad p') (convection_function p')
                           f params u (constraints p') b0)
           (rhs_calls (journal p')) \<and>
         (start_time params + time_step p' = start_time params \<longrightarrow>
            list_all (\<lambda>(n, t, f, u, b0, b). fp_time f = start_time params)
              (rhs_calls (journal p')))"
proof -
  note calls = cdr_program_rhs_calls[OF assms]
  have "list_all (\<lambda>(n, t, f, u, b0, b). fp_time f = start_time params) (rhs_calls (journal p'))"
    if absorbed: "start_time params + time_step p' = start_time params"
  proof -
    have "map (\<lambda>x. snd (snd x))
            (map (\<lambda>(n, t, f, u, b0, b). (unat n, t, fp_time f)) (rhs_calls (journal p')))
          = map (\<lambda>i. start_time params) [0..<unat (n_time_steps params)]"
      unfolding calls(1) by (simp add: comp_def time_after_absorbed[OF absorbed] absorbed)
    then have "map (\<lambda>(n, t, f, u, b0, b). fp_time f) (rhs_calls (journal p'))
          = map (\<lambda>i. start_time params) [0..<unat (n_time_steps params)]"
      by (simp add: comp_def case_prod_unfold)
    then have "list_all (\<lambda>t. t = start_time params)
                 (map (\<lambda>(n, t, f, u, b0, b). fp_time f) (rhs_calls (journal p')))"
      by (simp add: list_all_iff)
    then show ?thesis
      by (simp add: list_all_iff case_prod_unfold)
  qed
  with calls show ?thesis by blast
qed

theorem C7_forcing_time_advanced_before_assembly_witness:
  "\<not> isl (cdr_program example_env 2 example_parameters) \<and>
   map (\<lambda>(n, t, f, u, b0, b). (unat n, t, fp_time f))
     (rhs_calls (journal (projr (cdr_program example_env 2 example_parameters))))
     = [(0, 2 / 5, 2 / 5), (1, 4 / 5, 4 / 5), (2, 6 / 5, 6 / 5), (3, 8 / 5, 8 / 5), (4, 2, 2)] \<and>
   \<not> isl (cdr_program rounding_env 2 large_start_parameters) \<and>
   start_time large_start_parameters
     + time_step (projr (cdr_program rounding_env 2 large_start_parameters))
     = start_time large_start_parameters \<and>
   list_all (\<lambda>(n, t, f, u, b0, b). fp_time f = Binary64 (10 ^ 16))
     (rhs_calls (journal (projr (cdr_program rounding_env 2 large_start_parameters))))"
proof -
  obtain p' where run: "cdr_program example_env 2 example_parameters = Inr p'"
    using example_run by blast
  obtain q' where large: "cdr_program rounding_env 2 large_start_parameters = Inr q'"
    using large_start_run by blast
  from C7_forcing_time_advanced_before_assembly[OF run]
  have exact: "map (\<lambda>(n, t, f, u, b0, b). (unat n, t, fp_time f)) (rhs_calls (journal p'))
     = [(0, 2 / 5, 2 / 5), (1, 4 / 5, 4 / 5), (2, 6 / 5, 6 / 5), (3, 8 / 5, 8 / 5), (4, 2, 2)]"
    by (simp add: example_parameters_simps example_env_simps upt_5 time_after_real)
  note C7 = C7_forcing_time_advanced_before_assembly[OF large]
  from C7 have dt: "time_step q' = Binary64 1"
    by (simp add: large_start_step)
  then have absorbed: "start_time large_start_parameters + time_step q'
                         = start_time large_start_parameters"
    by (simp add: large_start_parameters_simps large_start_absorbed)
  with C7 have "list_all (\<lambda>(n, t, f, u, b0, b). fp_time f = start_time large_start_parameters)
                  (rhs_calls (journal q'))"
    by blast
  with exact absorbed show ?thesis
    by (simp add: run large large_start_parameters_simps)
qed

text \<open>
  C7 as stated fails in the arithmetic of doubles. With \<open>start_time = 10 ^ 16\<close>,
  \<open>stop_time = 10 ^ 16 + 2\<close> and two steps, \<open>start_time < stop_time\<close> and the step size is
  1, but \<open>10 ^ 16 + 1\<close> is not a double and rounds to \<open>10 ^ 16\<close>: in both iterations the
  forcing function handed to the assembly is at \<open>start_time\<close>, not at \<open>start_time + dt\<close>
  or \<open>start_time + 2 * dt\<close>.
\<close>

theorem C7_counterexample:
  "\<not> isl (cdr_program rounding_env 2 large_start_parameters) \<and>
   start_time large_start_parameters = Binary64 (10 ^ 16) \<and>
   stop_time large_start_parameters = Binary64 (10 ^ 16 + 2) \<and>
   time_step (projr (cdr_program rounding_env 2 large_start_parameters)) = Binary64 1 \<and>
   map (\<lambda>(n, t, f, u, b0, b). (unat n, fp_time f))
     (rhs_calls (journal (projr (cdr_program rounding_env 2 large_start_parameters))))
     = [(0, Binary64 (10 ^ 16)), (1, Binary64 (10 ^ 16))]"
proof -
  obtain q' where large: "cdr_program rounding_env 2 large_start_parameters = Inr q'"
    using large_start_run by blast
  note calls = cdr_program_rhs_calls[OF large]
  from calls(3) have dt: "time_step q' = Binary64 1"
    by (simp add: large_start_step)
  have absorbed: "start_time large_start_parameters + time_step q'
                    = start_time large_start_parameters"
    by (simp add: dt large_start_parameters_simps large_start_absorbed)
  have fixed: "time_after (start_time large_start_parameters) (time_step q') k
                 = start_time large_start_parameters" for k
    by (rule time_after_absorbed[OF absorbed])
  have "map (\<lambda>x. (fst x, snd (snd x)))
          (map (\<lambda>(n, t, f, u, b0, b). (unat n, t, fp_time f)) (rhs_calls (journal q')))
        = [(0, Binary64 (10 ^ 16)), (1, Binary64 (10 ^ 16))]"
    unfolding calls(1) fixed
    by (simp add: comp_def large_start_parameters_simps upt_2)
  then have "map (\<lambda>(n, t, f, u, b0, b). (unat n, fp_time f)) (rhs_calls (journal q'))
        = [(0, Binary64 (10 ^ 16)), (1, Binary64 (10 ^ 16))]"
    by (simp add: comp_def case_prod_unfold)
  with dt show ?thesis
    by (simp add: large large_start_parameters_simps)
qed

text \<open>
  C8 (amended). In a run that completes, each saved step \<open>i\<close> leaves exactly one
  per-process file, named \<^verbatim>\<open>solution-<i>.<rank>.vtu\<close> with the rank of this process asked
  for in 4 digits; process 0, and only process 0, also writes a record file, named
  \<^verbatim>\<open>solution-<i>.pvtu\<close>, that lists the names \<^verbatim>\<open>solution-<i>.<r>.vtu\<close> of all processes
  \<open>r = 0, \<dots>, P - 1\<close>. The two names carry the extensions \<^verbatim>\<open>.vtu\<close> and \<^verbatim>\<open>.pvtu\<close>.
\<close>

theorem C8_output_file_names:
  assumes "cdr_program env dimension params = Inr p'"
  shows "map (\<lambda>(n, name). (unat n, Some name)) (vtu_files (journal p')) =
           map (\<lambda>i. (i, map_option (\<lambda>name. name @ ''.vtu'')
                           (solution_filename env (word_of_nat i) (mpi_this_process env))))
             (filter (\<lambda>i. i mod unat (save_interval params) = 0)
                [0..<unat (n_time_steps params)]) \<and>
         map (\<lambda>(n, name, names). (unat n, Some name, map Some names)) (pvtu_files (journal p')) =
           (if mpi_this_process env = 0
            then map (\<lambda>i. (i, pvtu_filename env (word_of_nat i),
                            map (\<lambda>r. map_option (\<lambda>name. name @ ''.vtu'')
                                       (solution_filename env (word_of_nat i) r))
                              (map word_of_nat [0..<unat (mpi_n_processes env)])))
                   (filter (\<lambda>i. i mod unat (save_interval params) = 0)
                      [0..<unat (n_time_steps params)])
            else []) \<and>
         (int_to_string env i invalid_unsigned_int = Some step_string \<and>
          int_to_string env r 4 = Some rank_string \<longrightarrow>
            solution_filename env i r = Some (''solution-'' @ step_string @ ''.'' @ rank_string) \<and>
            pvtu_filename env i = Some (''solution-'' @ step_string @ ''.pvtu''))"
  using cdr_program_vtu_files[OF assms] cdr_program_pvtu_files[OF assms]
  by (simp add: solution_filename_def pvtu_filename_def)

theorem C8_output_file_names_witness:
  "\<not> isl (cdr_program example_env 2 example_parameters) \<and>
   map (\<lambda>(n, name). (unat n, name))
     (vtu_files (journal (projr (cdr_program example_env 2 example_parameters))))
     = [(0, ''solution-0.0000.vtu''), (2, ''solution-2.0000.vtu''), (4, ''solution-4.0000.vtu'')] \<and>
   map (\<lambda>(n, name, names). (unat n, name, names))
     (pvtu_files (journal (projr (cdr_program example_env 2 example_parameters))))
     = [(0, ''solution-0.pvtu'', [''solution-0.0000.vtu'']),
        (2, ''solution-2.pvtu'', [''solution-2.0000.vtu'']),
        (4, ''solution-4.pvtu'', [''solution-4.0000.vtu''])]"
proof -
  obtain p' where run: "cdr_program example_env 2 example_parameters = Inr p'"
    using example_run by blast
  note C8 = C8_output_file_names[OF run, of 0 "''0''" 0 "''0000''"]
  from C8 have "map (\<lambda>(n, name). (unat n, Some name)) (vtu_files (journal p'))
      = [(0, Some ''solution-0.0000.vtu''), (2, Some ''solution-2.0000.vtu''),
         (4, Some ''solution-4.0000.vtu'')]"
    by (simp add: example_parameters_simps example_env_simps(1-3) upt_5 example_file_names)
  then have "map (\<lambda>x. (fst x, the (snd x)))
               (map (\<lambda>(n, name). (unat n, Some name)) (vtu_files (journal p')))
      = [(0, ''solution-0.0000.vtu''), (2, ''solution-2.0000.vtu''), (4, ''solution-4.0000.vtu'')]"
    by (simp only: list.map fst_conv snd_conv option.sel)
  then have vtu: "map (\<lambda>(n, name). (unat n, name)) (vtu_files (journal p'))
      = [(0, ''solution-0.0000.vtu''), (2, ''solution-2.0000.vtu''), (4, ''solution-4.0000.vtu'')]"
    by (simp add: comp_def case_prod_unfold)
  from C8 have "map (\<lambda>(n, name, names). (unat n, Some name, map Some names)) (pvtu_files (journal p'))
      = [(0, Some ''solution-0.pvtu'', [Some ''solution-0.0000.vtu'']),
         (2, Some ''solution-2.pvtu'', [Some ''solution-2.0000.vtu'']),
         (4, Some ''solution-4.pvtu'', [Some ''solution-4.0000.vtu''])]"
    by (simp add: example_parameters_simps example_env_simps(1-3) upt_5 example_file_names)
  then have "map (\<lambda>x. (fst x, the (fst (snd x)), map the (snd (snd x))))
               (map (\<lambda>(n, name, names). (unat n, Some name, map Some names))
                  (pvtu_files (journal p')))
      = [(0, ''solution-0.pvtu'', [''solution-0.0000.vtu'']),
         (2, ''solution-2.pvtu'', [''solution-2.0000.vtu'']),
         (4, ''solution-4.pvtu'', [''solution-4.0000.vtu''])]"
    by (simp only: list.map fst_conv snd_conv option.sel)
  then have pvtu: "map (\<lambda>(n, name, names). (unat n, name, names)) (pvtu_files (journal p'))
      = [(0, ''solution-0.pvtu'', [''solution-0.0000.vtu'']),
         (2, ''solution-2.pvtu'', [''solution-2.0000.vtu'']),
         (4, ''solution-4.pvtu'', [''solution-4.0000.vtu''])]"
    by (simp add: comp_def case_prod_unfold)
  from vtu pvtu show ?thesis by (simp add: run)
qed

text \<open>
  C8 as stated fails on the names: in the example run the per-process file of step 0
  is \<^verbatim>\<open>solution-0.0000.vtu\<close>, not \<^verbatim>\<open>solution-0.0000\<close>, and the record file is
  \<^verbatim>\<open>solution-0.pvtu\<close>, not \<^verbatim>\<open>solution-0\<close>.
\<close>

theorem C8_counterexample:
  "\<not> isl (cdr_program example_env 2 example_parameters) \<and>
   map (\<lambda>(n, name). (unat n, name))
     (vtu_files (journal (projr (cdr_program example_env 2 example_parameters))))
     = [(0, ''solution-0.0000.vtu''), (2, ''solution-2.0000.vtu''), (4, ''solution-4.0000.vtu'')] \<and>
   (0, ''solution-0.0000'') \<notin> set (map (\<lambda>(n, name). (unat n, name))
     (vtu_files (journal (projr (cdr_program example_env 2 example_parameters))))) \<and>
   map (\<lambda>(n, name, names). (unat n, name))
     (pvtu_files (journal (projr (cdr_program example_env 2 example_parameters))))
     = [(0, ''solution-0.pvtu''), (2, ''solution-2.pvtu''), (4, ''solution-4.pvtu'')] \<and>
   (0, ''solution-0'') \<notin> set (map (\<lambda>(n, name, names). (unat n, name))
     (pvtu_files (journal (projr (cdr_program example_env 2 example_parameters)))))"
proof -
  obtain p' where run: "cdr_program example_env 2 example_parameters = Inr p'"
    using example_run by blast
  have "map (\<lambda>(n, name). (unat n, Some name)) (vtu_files (journal p'))
      = [(0, Some ''solution-0.0000.vtu''), (2, Some ''solution-2.0000.vtu''),
         (4, Some ''solution-4.0000.vtu'')]"
    unfolding cdr_program_vtu_files[OF run]
    by (simp add: example_parameters_simps example_env_simps(1-3) upt_5 example_file_names)
  then have "map (\<lambda>x. (fst x, the (snd x)))
               (map (\<lambda>(n, name). (unat n, Some name)) (vtu_files (journal p')))
      = [(0, ''solution-0.0000.vtu''), (2, ''solution-2.0000.vtu''), (4, ''solution-4.0000.vtu'')]"
    by (simp only: list.map fst_conv snd_conv option.sel)
  then have vtu: "map (\<lambda>(n, name). (unat n, name)) (vtu_files (journal p'))
      = [(0, ''solution-0.0000.vtu''), (2, ''solution-2.0000.vtu''), (4, ''solution-4.0000.vtu'')]"
    by (simp add: comp_def case_prod_unfold)
  have "map (\<lambda>(n, name, names). (unat n, Some name, map Some names)) (pvtu_files (journal p'))
      = [(0, Some ''solution-0.pvtu'', [Some ''solution-0.0000.vtu'']),
         (2, Some ''solution-2.pvtu'', [Some ''solution-2.0000.vtu'']),
         (4, Some ''solution-4.pvtu'', [Some ''solution-4.0000.vtu''])]"
    unfolding cdr_program_pvtu_files[OF run]
    by (simp add: example_parameters_simps example_env_simps(1-3) upt_5 example_file_names)
  then have "map (\<lambda>x. (fst x, the (fst (snd x))))
               (map (\<lambda>(n, name, names). (unat n, Some name, map Some names))
                  (pvtu_files (journal p')))
      = [(0, ''solution-0.pvtu''), (2, ''solution-2.pvtu''), (4, ''solution-4.pvtu'')]"
    by (simp only: list.map fst_conv snd_conv option.sel)
  then have pvtu: "map (\<lambda>(n, name, names). (unat n, name)) (pvtu_files (journal p'))
      = [(0, ''solution-0.pvtu''), (2, ''solution-2.pvtu''), (4, ''solution-4.pvtu'')]"
    by (simp add: comp_def case_prod_unfold)
  show ?thesis
    unfolding run sum.sel vtu pvtu by simp
qed

text \<open>
  C9. For every \<open>dim\<close> other than 2 construction aborts: in a debug build at the
  assertion of line 107 with \<open>ExcNotImplemented\<close>, and without assertions in
  \<^verbatim>\<open>FunctionParser::initialize\<close>, which is given two variable names and two expressions.
  For \<open>dim = 2\<close> the assertion passes, and construction succeeds exactly when the parser
  accepts the convection field and the forcing.
\<close>

theorem C9_dimension_two_only:
  "(dimension \<noteq> 2 \<longrightarrow> isl (CDRProblem_ctor env dimension params)) \<and>
   (dimension \<noteq> 2 \<and> assertions_enabled env \<longrightarrow>
      CDRProblem_ctor env dimension params = Inl ExcNotImplemented) \<and>
   CDRProblem_ctor env 2 params \<noteq> Inl ExcNotImplemented \<and>
   (isl (CDRProblem_ctor env 2 params) \<longleftrightarrow>
      \<not> (convection_accepted env (convection_field params) \<and>
         forcing_accepted env (forcing params)))"
  using CDRProblem_ctor_not_2[of dimension env params]
    CDRProblem_ctor_2_not_ExcNotImplemented[of env params]
    CDRProblem_ctor_isl_2[of env params]
  by blast

theorem C9_dimension_two_only_witness:
  "CDRProblem_ctor example_env 3 example_parameters = Inl ExcNotImplemented \<and>
   isl (CDRProblem_ctor (example_env\<lparr>assertions_enabled := False\<rparr>) 3 example_parameters) \<and>
   \<not> isl (CDRProblem_ctor example_env 2 example_parameters)"
  using C9_dimension_two_only[of 3 example_env example_parameters]
    C9_dimension_two_only[of 3 "example_env\<lparr>assertions_enabled := False\<rparr>" example_parameters]
    example_convection_accepted(1) example_forcing_accepted
  by (simp add: example_parameters_simps example_env_simps)

text \<open>
  C10. \<^verbatim>\<open>setup_geometry\<close> leaves the ghosted solution as the zero vector over the locally
  relevant unknowns and nothing touches it before the loop, so the previous solution
  handed to the first assembly (iteration 0) is that zero vector: it is the previous
  solution of the first entry of \<^verbatim>\<open>create_system_rhs\<close>, and what the entry says the call
  left is what \<open>create_system_rhs\<close> returns for it.
\<close>

theorem C10_first_assembly_sees_zero:
  assumes "cdr_program env dimension params = Inr p'"
      and "0 < n_time_steps params"
  shows "(case CDRProblem_ctor env dimension params of
            Inl e \<Rightarrow> False
          | Inr p0 \<Rightarrow>
              locally_relevant_solution (setup_geometry env p0)
                = Vector_reinit (locally_relevant_dofs p') \<and>
              locally_relevant_solution (setup_matrices env (setup_geometry env p0))
                = Vector_reinit (locally_relevant_dofs p')) \<and>
         (case rhs_calls (journal p') of
            [] \<Rightarrow> False
          | (n, t, f, u, b0, b) # rest \<Rightarrow>
              n = 0 \<and> u = Vector_reinit (locally_relevant_dofs p') \<and>
              dom u = locally_relevant_dofs p' \<and> ran u \<subseteq> {0} \<and>
              b = create_system_rhs env (dof_handler p') (quad p') (convection_function p')
                    f params u (constraints p') b0)"
proof -
  from assms(1) obtain p0 where ctor: "CDRProblem_ctor env dimension params = Inr p0"
    and same: "same_setup (setup_matrices env (setup_geometry env p0)) p'"
    by (rule cdr_program_same_setup)
  have dofs: "locally_relevant_dofs (setup_geometry env p0) = locally_relevant_dofs p'"
    using same by (simp add: same_setup_def setup_matrices_simps)
  have initial: "locally_relevant_solution (setup_geometry env p0)
                 = Vector_reinit (locally_relevant_dofs p')"
    "locally_relevant_solution (setup_matrices env (setup_geometry env p0))
                 = Vector_reinit (locally_relevant_dofs p')"
    using dofs by (simp_all add: setup_matrices_simps setup_geometry_simps)
  from cdr_program_first_rhs[OF assms] obtain t f b rest where
    first: "rhs_calls (journal p') = (0, t, f, Vector_reinit (locally_relevant_dofs p'),
              Vector_set_zero (Vector_reinit (locally_owned_dofs p')), b) # rest"
    by blast
  from cdr_program_rhs_calls(2)[OF assms(1)]
  have tie: "b = create_system_rhs env (dof_handler p') (quad p') (convection_function p')
                   f params (Vector_reinit (locally_relevant_dofs p')) (constraints p')
                   (Vector_set_zero (Vector_reinit (locally_owned_dofs p')))"
    by (simp add: first)
  from initial tie show ?thesis
    by (simp add: ctor first Vector_reinit_zero)
qed

theorem C10_first_assembly_sees_zero_witness:
  "\<not> isl (cdr_program example_env 2 example_parameters) \<and>
   (case rhs_calls (journal (projr (cdr_program example_env 2 example_parameters))) of
      [] \<Rightarrow> False
    | (n, t, f, u, b0, b) # rest \<Rightarrow>
        n = 0 \<and> u 3 = Some 0 \<and> ran u \<subseteq> {0} \<and>
        b = (\<lambda>i. if i < 25 then Some (2 / 5) else None))"
proof -
  obtain p' where run: "cdr_program example_env 2 example_parameters = Inr p'"
    using example_run by blast
  have "0 < n_time_steps example_parameters" by (simp add: example_parameters_simps)
  note C10 = C10_first_assembly_sees_zero[OF run this]
  from example_first_rhs[OF run] obtain t f b0 rest where
    first: "rhs_calls (journal p') = (0, t, f, Vector_reinit {..<25}, Vector_reinit {..<25}, b0) # rest"
    and f: "fp_time f = 2 / 5"
    by blast
  from C10 have "b0 = create_system_rhs example_env (dof_handler p') (quad p')
                        (convection_function p') f example_parameters (Vector_reinit {..<25})
                        (constraints p') (Vector_reinit {..<25})"
    by (simp add: first split: sum.splits)
  then have b0: "b0 = (\<lambda>i. if i < 25 then Some (2 / 5) else None)"
    by (auto simp: example_env_simps f Vector_reinit_def)
  from C10 b0 show ?thesis
    by (auto simp: run first Vector_reinit_def split: sum.splits)
qed

end
